theory Spec2Isabelle
  imports Main "HOL-Library.Char_ord" "HOL-Library.List_Lexorder"
begin

section \<open>The REST client of circleci-cli (\<^verbatim>\<open>rest_client/client.go\<close>)\<close>

text \<open>
  The client builds HTTP requests against a JSON service, decodes the responses and walks
  a listing that the server cuts into pages chained by tokens. Go strings are byte
  strings, here \<^typ>\<open>string\<close>. A function that returns \<^verbatim>\<open>(value, error)\<close> returns
  a \<open>result\<close>; a nil pointer dereference, which stops the Go program, is the outcome
  \<open>Panic\<close>.
\<close>

subsection \<open>Errors and outcomes\<close>

datatype goerror =
    errorString string  \<comment> \<open>\<^verbatim>\<open>errors.New\<close> and \<^verbatim>\<open>fmt.Errorf\<close> of the standard library, by message\<close>
  | EscapeError string  \<comment> \<open>\<^verbatim>\<open>url.EscapeError\<close>\<close>
  | InvalidHostError string  \<comment> \<open>\<^verbatim>\<open>url.InvalidHostError\<close>\<close>
  | url_Error string string goerror  \<comment> \<open>\<^verbatim>\<open>&url.Error{Op, URL, Err}\<close>\<close>
  | fundamental string  \<comment> \<open>\<^verbatim>\<open>errors.New\<close> of \<^verbatim>\<open>github.com/pkg/errors\<close>, by message\<close>
  | otherError string  \<comment> \<open>an error made by the transport, the body reader or the JSON decoder\<close>

datatype 'a result = Ok 'a | Err goerror | Panic

subsection \<open>Package \<^verbatim>\<open>strings\<close>\<close>

definition HasPrefix :: "string \<Rightarrow> string \<Rightarrow> bool" where
  "HasPrefix s pre = (take (length pre) s = pre)"

definition HasSuffix :: "string \<Rightarrow> string \<Rightarrow> bool" where
  "HasSuffix s suf = (length suf \<le> length s \<and> drop (length s - length suf) s = suf)"

definition TrimPrefix :: "string \<Rightarrow> string \<Rightarrow> string" where
  "TrimPrefix s pre = (if HasPrefix s pre then drop (length pre) s else s)"

definition TrimSuffix :: "string \<Rightarrow> string \<Rightarrow> string" where
  "TrimSuffix s suf = (if HasSuffix s suf then take (length s - length suf) s else s)"

text \<open>\<^verbatim>\<open>strings.Index\<close>: the position of the first occurrence, \<open>None\<close> for Go's \<open>-1\<close>.\<close>

fun Index :: "string \<Rightarrow> string \<Rightarrow> nat option" where
  "Index [] sub = (if sub = [] then Some 0 else None)"
| "Index (c # cs) sub =
     (if HasPrefix (c # cs) sub then Some 0
      else (case Index cs sub of None \<Rightarrow> None | Some i \<Rightarrow> Some (Suc i)))"

text \<open>\<^verbatim>\<open>strings.LastIndex\<close> for a separator of one byte.\<close>

fun LastIndexByte :: "string \<Rightarrow> char \<Rightarrow> nat option" where
  "LastIndexByte [] b = None"
| "LastIndexByte (c # cs) b =
     (case LastIndexByte cs b of
        Some i \<Rightarrow> Some (Suc i)
      | None \<Rightarrow> (if c = b then Some 0 else None))"

text \<open>\<^verbatim>\<open>strings.Split(s, "/")\<close>, the separator being one byte: always at least one piece.\<close>

fun Split :: "string \<Rightarrow> char \<Rightarrow> string list" where
  "Split [] sep = [[]]"
| "Split (c # cs) sep =
     (if c = sep then [] # Split cs sep
      else (case Split cs sep of p # ps \<Rightarrow> (c # p) # ps | [] \<Rightarrow> [[c]]))"

fun Join :: "string list \<Rightarrow> string \<Rightarrow> string" where
  "Join [] sep = []"
| "Join [p] sep = p"
| "Join (p # q # ps) sep = p @ sep @ Join (q # ps) sep"

text \<open>Go's test \<^verbatim>\<open>lo <= c && c <= hi\<close> on a byte.\<close>

definition inRange :: "char \<Rightarrow> char \<Rightarrow> char \<Rightarrow> bool" where
  "inRange c lo hi = (lo \<le> c \<and> c \<le> hi)"

definition toLowerByte :: "char \<Rightarrow> char" where
  "toLowerByte c =
     (if inRange c CHR ''A'' CHR ''Z'' then char_of (of_char c + (32::nat)) else c)"

definition toUpperByte :: "char \<Rightarrow> char" where
  "toUpperByte c =
     (if inRange c CHR ''a'' CHR ''z'' then char_of (of_char c - (32::nat)) else c)"

subsection \<open>Package \<^verbatim>\<open>net/url\<close>: escaping\<close>

text \<open>
  The URL functions the client calls are those of Go's standard library; they are
  embedded here as the library of Go 1.14 defines them (\<^verbatim>\<open>net/url/url.go\<close>), loops over
  byte indices written as recursion over the bytes.
\<close>

datatype encoding =
    encodePath | encodePathSegment | encodeHost | encodeZone
  | encodeUserPassword | encodeQueryComponent | encodeFragment

definition isAlnum :: "char \<Rightarrow> bool" where
  "isAlnum c = (inRange c CHR ''a'' CHR ''z'' \<or> inRange c CHR ''A'' CHR ''Z''
                \<or> inRange c CHR ''0'' CHR ''9'')"

definition ishex :: "char \<Rightarrow> bool" where
  "ishex c = (inRange c CHR ''0'' CHR ''9'' \<or> inRange c CHR ''a'' CHR ''f''
              \<or> inRange c CHR ''A'' CHR ''F'')"

definition unhex :: "char \<Rightarrow> nat" where
  "unhex c =
     (if inRange c CHR ''0'' CHR ''9'' then of_char c - of_char CHR ''0''
      else if inRange c CHR ''a'' CHR ''f'' then of_char c - of_char CHR ''a'' + 10
      else if inRange c CHR ''A'' CHR ''F'' then of_char c - of_char CHR ''A'' + 10
      else 0)"

definition upperhex :: "nat \<Rightarrow> char" where
  "upperhex n = ''0123456789ABCDEF'' ! n"

definition shouldEscape :: "char \<Rightarrow> encoding \<Rightarrow> bool" where
  "shouldEscape c mode =
     (if isAlnum c then False
      else if (mode = encodeHost \<or> mode = encodeZone)
              \<and> c \<in> set (''!$&()*+,;=:[]<>'' @ [CHR 0x27, CHR 0x22]) then False
      else if c \<in> set ''-_.~'' then False
      else if c \<in> set ''$&+,/:;=?@'' \<and> mode = encodePath then c = CHR ''?''
      else if c \<in> set ''$&+,/:;=?@'' \<and> mode = encodePathSegment then c \<in> set ''/;,?''
      else if c \<in> set ''$&+,/:;=?@'' \<and> mode = encodeUserPassword then c \<in> set ''@/?:''
      else if c \<in> set ''$&+,/:;=?@'' \<and> mode = encodeQueryComponent then True
      else if c \<in> set ''$&+,/:;=?@'' \<and> mode = encodeFragment then False
      else if mode = encodeFragment \<and> c \<in> set ''!()*'' then False
      else True)"

definition escapeByte :: "encoding \<Rightarrow> char \<Rightarrow> string" where
  "escapeByte mode c =
     (if c = CHR '' '' \<and> mode = encodeQueryComponent then ''+''
      else if shouldEscape c mode
        then [CHR ''%'', upperhex (of_char c div 16), upperhex (of_char c mod 16)]
      else [c])"

definition escape :: "string \<Rightarrow> encoding \<Rightarrow> string" where
  "escape s mode = concat (map (escapeByte mode) s)"

definition QueryEscape :: "string \<Rightarrow> string" where
  "QueryEscape s = escape s encodeQueryComponent"

text \<open>
  \<^verbatim>\<open>unescape\<close> checks the string from left to right, then decodes it; the first
  offending byte decides the error, so one pass returns the same.
\<close>

fun unescape :: "string \<Rightarrow> encoding \<Rightarrow> goerror + string" where
  "unescape [] mode = Inr []"
| "unescape (c # cs) mode =
     (if c = CHR ''%'' then
        (case cs of
           a # b # rest \<Rightarrow>
             if \<not> ishex a \<or> \<not> ishex b then Inl (EscapeError [c, a, b])
             else if mode = encodeHost \<and> unhex a < 8 \<and> [c, a, b] \<noteq> ''%25''
               then Inl (EscapeError [c, a, b])
             else if mode = encodeZone \<and> [c, a, b] \<noteq> ''%25''
                     \<and> char_of (unhex a * 16 + unhex b) \<noteq> CHR '' ''
                     \<and> shouldEscape (char_of (unhex a * 16 + unhex b)) encodeHost
               then Inl (EscapeError [c, a, b])
             else (case unescape rest mode of
                     Inl e \<Rightarrow> Inl e
                   | Inr t \<Rightarrow> Inr (char_of (unhex a * 16 + unhex b) # t))
         | _ \<Rightarrow> Inl (EscapeError (c # cs)))
      else if c = CHR ''+'' then
        (case unescape cs mode of
           Inl e \<Rightarrow> Inl e
         | Inr t \<Rightarrow> Inr ((if mode = encodeQueryComponent then CHR '' '' else CHR ''+'') # t))
      else if (mode = encodeHost \<or> mode = encodeZone) \<and> (of_char c :: nat) < 0x80
              \<and> shouldEscape c mode then Inl (InvalidHostError [c])
      else (case unescape cs mode of Inl e \<Rightarrow> Inl e | Inr t \<Rightarrow> Inr (c # t)))"

subsection \<open>Package \<^verbatim>\<open>net/url\<close>: parsing\<close>

record Userinfo =
  username :: string
  password :: string
  passwordSet :: bool

record URL =
  Scheme :: string
  Opaque :: string
  User :: "Userinfo option"
  Host :: string
  Path :: string
  RawPath :: string
  ForceQuery :: bool
  RawQuery :: string
  Fragment :: string

definition emptyURL :: URL where
  "emptyURL = \<lparr>Scheme = [], Opaque = [], User = None, Host = [], Path = [], RawPath = [],
                ForceQuery = False, RawQuery = [], Fragment = []\<rparr>"

definition Userinfo_String :: "Userinfo option \<Rightarrow> string" where
  "Userinfo_String u =
     (case u of
        None \<Rightarrow> []
      | Some ui \<Rightarrow>
          escape (username ui) encodeUserPassword
          @ (if passwordSet ui then '':'' @ escape (password ui) encodeUserPassword else []))"

text \<open>
  \<^verbatim>\<open>split(s, sep, cutc)\<close>: the two parts of \<open>s\<close> around the first \<open>sep\<close>, which stays
  at the head of the second part unless \<open>cutc\<close>; without a \<open>sep\<close>, \<open>s\<close> and the empty string.
\<close>

fun split :: "string \<Rightarrow> char \<Rightarrow> bool \<Rightarrow> string \<times> string" where
  "split [] sep cutc = ([], [])"
| "split (c # cs) sep cutc =
     (if c = sep then ([], if cutc then cs else c # cs)
      else (case split cs sep cutc of (a, b) \<Rightarrow> (c # a, b)))"

text \<open>
  \<^verbatim>\<open>getscheme\<close>: \<open>seen\<close> holds the bytes before the current one. The result is the
  scheme and the rest, the scheme empty when the string has none.
\<close>

fun getscheme_from :: "string \<Rightarrow> string \<Rightarrow> goerror + (string \<times> string)" where
  "getscheme_from seen [] = Inr ([], seen)"
| "getscheme_from seen (c # cs) =
     (if inRange c CHR ''a'' CHR ''z'' \<or> inRange c CHR ''A'' CHR ''Z''
        then getscheme_from (seen @ [c]) cs
      else if inRange c CHR ''0'' CHR ''9'' \<or> c = CHR ''+'' \<or> c = CHR ''-'' \<or> c = CHR ''.''
        then (if seen = [] then Inr ([], c # cs) else getscheme_from (seen @ [c]) cs)
      else if c = CHR '':''
        then (if seen = [] then Inl (errorString ''missing protocol scheme'')
              else Inr (seen, cs))
      else Inr ([], seen @ c # cs))"

definition getscheme :: "string \<Rightarrow> goerror + (string \<times> string)" where
  "getscheme rawurl = getscheme_from [] rawurl"

definition stringContainsCTLByte :: "string \<Rightarrow> bool" where
  "stringContainsCTLByte s = (\<exists>b \<in> set s. b < CHR '' '' \<or> b = CHR 0x7F)"

definition validOptionalPort :: "string \<Rightarrow> bool" where
  "validOptionalPort port =
     (case port of
        [] \<Rightarrow> True
      | c # ds \<Rightarrow> c = CHR '':'' \<and> (\<forall>b \<in> set ds. inRange b CHR ''0'' CHR ''9''))"

text \<open>\<^verbatim>\<open>validUserinfo\<close>: letters, digits and the marks RFC 3986 allows in a userinfo.\<close>

definition validUserinfo :: "string \<Rightarrow> bool" where
  "validUserinfo s =
     (\<forall>r \<in> set s. isAlnum r \<or> r \<in> set (''-._:~!$&()*+,;=%@'' @ [CHR 0x27]))"

definition invalidPort :: "string \<Rightarrow> goerror" where
  "invalidPort colonPort =
     errorString (''invalid port '' @ [CHR 0x22] @ colonPort @ [CHR 0x22] @ '' after host'')"

definition parseHost :: "string \<Rightarrow> goerror + string" where
  "parseHost host =
     (if HasPrefix host ''['' then
        (case LastIndexByte host CHR '']'' of
           None \<Rightarrow> Inl (errorString (''missing '' @ [CHR 0x27] @ '']'' @ [CHR 0x27] @ '' in host''))
         | Some i \<Rightarrow>
             if \<not> validOptionalPort (drop (i + 1) host)
               then Inl (invalidPort (drop (i + 1) host))
             else
               (case Index (take i host) ''%25'' of
                  Some zone \<Rightarrow>
                    (case unescape (take zone host) encodeHost of
                       Inl e \<Rightarrow> Inl e
                     | Inr host1 \<Rightarrow>
                         (case unescape (drop zone (take i host)) encodeZone of
                            Inl e \<Rightarrow> Inl e
                          | Inr host2 \<Rightarrow>
                              (case unescape (drop i host) encodeHost of
                                 Inl e \<Rightarrow> Inl e
                               | Inr host3 \<Rightarrow> Inr (host1 @ host2 @ host3))))
                | None \<Rightarrow> unescape host encodeHost))
      else
        (case LastIndexByte host CHR '':'' of
           Some i \<Rightarrow>
             if \<not> validOptionalPort (drop i host) then Inl (invalidPort (drop i host))
             else unescape host encodeHost
         | None \<Rightarrow> unescape host encodeHost))"

definition parseAuthority :: "string \<Rightarrow> goerror + (Userinfo option \<times> string)" where
  "parseAuthority authority =
     (case LastIndexByte authority CHR ''@'' of
        None \<Rightarrow>
          (case parseHost authority of Inl e \<Rightarrow> Inl e | Inr host \<Rightarrow> Inr (None, host))
      | Some i \<Rightarrow>
          (case parseHost (drop (i + 1) authority) of
             Inl e \<Rightarrow> Inl e
           | Inr host \<Rightarrow>
               let userinfo = take i authority in
               if \<not> validUserinfo userinfo then Inl (errorString ''net/url: invalid userinfo'')
               else if CHR '':'' \<notin> set userinfo then
                 (case unescape userinfo encodeUserPassword of
                    Inl e \<Rightarrow> Inl e
                  | Inr name \<Rightarrow>
                      Inr (Some \<lparr>username = name, password = [], passwordSet = False\<rparr>, host))
               else
                 (case split userinfo CHR '':'' True of
                    (name0, pass0) \<Rightarrow>
                      (case unescape name0 encodeUserPassword of
                         Inl e \<Rightarrow> Inl e
                       | Inr name \<Rightarrow>
                           (case unescape pass0 encodeUserPassword of
                              Inl e \<Rightarrow> Inl e
                            | Inr pass \<Rightarrow>
                                Inr (Some \<lparr>username = name, password = pass,
                                            passwordSet = True\<rparr>, host))))))"

definition setPath :: "URL \<Rightarrow> string \<Rightarrow> goerror + URL" where
  "setPath u p =
     (case unescape p encodePath of
        Inl e \<Rightarrow> Inl e
      | Inr path \<Rightarrow>
          Inr (u\<lparr>Path := path,
                 RawPath := (if p = escape path encodePath then [] else p)\<rparr>))"

definition validEncodedPath :: "string \<Rightarrow> bool" where
  "validEncodedPath s =
     (\<forall>c \<in> set s. c \<in> set (''!$&()*+,;=:@[]%'' @ [CHR 0x27]) \<or> \<not> shouldEscape c encodePath)"

definition EscapedPath :: "URL \<Rightarrow> string" where
  "EscapedPath u =
     (if RawPath u \<noteq> [] \<and> validEncodedPath (RawPath u)
         \<and> unescape (RawPath u) encodePath = Inr (Path u)
        then RawPath u
      else if Path u = ''*'' then ''*''
      else escape (Path u) encodePath)"

text \<open>\<^verbatim>\<open>parse(rawurl, viaRequest)\<close> with \<open>viaRequest\<close> false, as \<^verbatim>\<open>url.Parse\<close> calls it.\<close>

definition parse :: "string \<Rightarrow> goerror + URL" where
  "parse rawurl =
     (if stringContainsCTLByte rawurl
        then Inl (errorString ''net/url: invalid control character in URL'')
      else if rawurl = ''*'' then Inr (emptyURL\<lparr>Path := ''*''\<rparr>)
      else
        (case getscheme rawurl of
           Inl e \<Rightarrow> Inl e
         | Inr (scheme0, rest0) \<Rightarrow>
             let scheme = map toLowerByte scheme0;
                 forced = (HasSuffix rest0 ''?'' \<and> count_list rest0 CHR ''?'' = 1);
                 rest1 = (if forced then take (length rest0 - 1) rest0
                          else fst (split rest0 CHR ''?'' True));
                 query = (if forced then [] else snd (split rest0 CHR ''?'' True));
                 url = emptyURL\<lparr>Scheme := scheme, ForceQuery := forced, RawQuery := query\<rparr>
             in
               if \<not> HasPrefix rest1 ''/'' \<and> scheme \<noteq> [] then Inr (url\<lparr>Opaque := rest1\<rparr>)
               else if \<not> HasPrefix rest1 ''/''
                      \<and> CHR '':'' \<in> set (fst (split rest1 CHR ''/'' True))
                 then Inl (errorString ''first path segment in URL cannot contain colon'')
               else if (scheme \<noteq> [] \<or> \<not> HasPrefix rest1 ''///'') \<and> HasPrefix rest1 ''//''
                 then
                   (case split (drop 2 rest1) CHR ''/'' False of
                      (authority, rest2) \<Rightarrow>
                        (case parseAuthority authority of
                           Inl e \<Rightarrow> Inl e
                         | Inr (user, host) \<Rightarrow> setPath (url\<lparr>User := user, Host := host\<rparr>) rest2))
               else setPath url rest1))"

definition url_Parse :: "string \<Rightarrow> goerror + URL" where
  "url_Parse rawurl =
     (case split rawurl CHR ''#'' True of
        (u, frag) \<Rightarrow>
          (case parse u of
             Inl e \<Rightarrow> Inl (url_Error ''parse'' u e)
           | Inr url \<Rightarrow>
               if frag = [] then Inr url
               else
                 (case unescape frag encodeFragment of
                    Inl e \<Rightarrow> Inl (url_Error ''parse'' rawurl e)
                  | Inr f \<Rightarrow> Inr (url\<lparr>Fragment := f\<rparr>))))"

subsection \<open>Package \<^verbatim>\<open>net/url\<close>: printing and resolving\<close>

text \<open>
  \<^verbatim>\<open>(*URL).String\<close> of Go 1.14. Later releases keep a flag \<^verbatim>\<open>OmitHost\<close> and
  print a URL that has a scheme and no host differently; with a host, or without a
  scheme, they print the same.
\<close>

definition URL_String :: "URL \<Rightarrow> string" where
  "URL_String u =
     (let buf0 = (if Scheme u \<noteq> [] then Scheme u @ '':'' else []);
          buf1 =
            (if Opaque u \<noteq> [] then buf0 @ Opaque u
             else
               let buf2 =
                     (if Scheme u \<noteq> [] \<or> Host u \<noteq> [] \<or> User u \<noteq> None then
                        buf0
                        @ (if Host u \<noteq> [] \<or> Path u \<noteq> [] \<or> User u \<noteq> None then ''//'' else [])
                        @ (if User u \<noteq> None then Userinfo_String (User u) @ ''@'' else [])
                        @ (if Host u \<noteq> [] then escape (Host u) encodeHost else [])
                      else buf0);
                   path = EscapedPath u;
                   buf3 = (if path \<noteq> [] \<and> hd path \<noteq> CHR ''/'' \<and> Host u \<noteq> []
                           then buf2 @ ''/'' else buf2);
                   buf4 = (if buf3 = [] \<and> CHR '':'' \<in> set (fst (split path CHR ''/'' True))
                           then buf3 @ ''./'' else buf3)
               in buf4 @ path)
      in buf1
         @ (if ForceQuery u \<or> RawQuery u \<noteq> [] then ''?'' @ RawQuery u else [])
         @ (if Fragment u \<noteq> [] then ''#'' @ escape (Fragment u) encodeFragment else []))"

text \<open>
  \<^verbatim>\<open>resolvePath\<close>: the reference replaces the last segment of the base, then the
  segments \<open>.\<close> and \<open>..\<close> are removed; \<open>dst\<close> is the stack of segments kept so far.
\<close>

fun removeDots :: "string list \<Rightarrow> string list \<Rightarrow> string list" where
  "removeDots dst [] = dst"
| "removeDots dst (elem # src) =
     (if elem = ''.'' then removeDots dst src
      else if elem = ''..'' then removeDots (butlast dst) src
      else removeDots (dst @ [elem]) src)"

definition resolvePath :: "string \<Rightarrow> string \<Rightarrow> string" where
  "resolvePath base ref =
     (let full =
            (if ref = [] then base
             else if hd ref \<noteq> CHR ''/'' then
               (case LastIndexByte base CHR ''/'' of
                  None \<Rightarrow> ref
                | Some i \<Rightarrow> take (i + 1) base @ ref)
             else ref)
      in if full = [] then []
         else
           let src = Split full CHR ''/'';
               dst0 = removeDots [] src;
               dst = (if last src = ''.'' \<or> last src = ''..'' then dst0 @ [[]] else dst0)
           in ''/'' @ TrimPrefix (Join dst ''/'') ''/'')"

definition ResolveReference :: "URL \<Rightarrow> URL \<Rightarrow> URL" where
  "ResolveReference u ref =
     (let url = (if Scheme ref = [] then ref\<lparr>Scheme := Scheme u\<rparr> else ref) in
      if Scheme ref \<noteq> [] \<or> Host ref \<noteq> [] \<or> User ref \<noteq> None then
        (case setPath url (resolvePath (EscapedPath ref) []) of
           Inl e \<Rightarrow> url
         | Inr url' \<Rightarrow> url')
      else if Opaque ref \<noteq> [] then url\<lparr>User := None, Host := [], Path := []\<rparr>
      else
        let url1 =
              (if Path ref = [] \<and> RawQuery ref = [] then
                 url\<lparr>RawQuery := RawQuery u,
                     Fragment := (if Fragment ref = [] then Fragment u else Fragment url)\<rparr>
               else url);
            url2 = url1\<lparr>Host := Host u, User := User u\<rparr>
        in (case setPath url2 (resolvePath (EscapedPath u) (EscapedPath ref)) of
              Inl e \<Rightarrow> url2
            | Inr url' \<Rightarrow> url'))"

text \<open>\<^verbatim>\<open>(*URL).Parse\<close>: parse the reference, then resolve it against the receiver.\<close>

definition URL_Parse :: "URL \<Rightarrow> string \<Rightarrow> goerror + URL" where
  "URL_Parse u ref =
     (case url_Parse ref of
        Inl e \<Rightarrow> Inl e
      | Inr refurl \<Rightarrow> Inr (ResolveReference u refurl))"

subsection \<open>Package \<^verbatim>\<open>net/url\<close>: query values\<close>

text \<open>
  \<^verbatim>\<open>url.Values\<close> is a map from a key to the list of its values. \<^verbatim>\<open>Add\<close> appends to
  the list of the key; \<^verbatim>\<open>Encode\<close> writes \<open>key=value\<close> pairs, escaped and joined by
  \<open>&\<close>, the keys sorted. The map is kept as a list of entries with distinct keys.
\<close>

type_synonym Values = "(string \<times> string list) list"

fun Values_Add :: "Values \<Rightarrow> string \<Rightarrow> string \<Rightarrow> Values" where
  "Values_Add [] key val = [(key, [val])]"
| "Values_Add ((k, vs) # rest) key val =
     (if k = key then (k, vs @ [val]) # rest else (k, vs) # Values_Add rest key val)"

definition Values_Get_all :: "Values \<Rightarrow> string \<Rightarrow> string list" where
  "Values_Get_all v k = (case map_of v k of None \<Rightarrow> [] | Some vs \<Rightarrow> vs)"

definition Values_Encode :: "Values \<Rightarrow> string" where
  "Values_Encode v =
     foldl (\<lambda>buf k.
              foldl (\<lambda>buf val. (if buf \<noteq> [] then buf @ ''&'' else buf)
                                 @ QueryEscape k @ ''='' @ QueryEscape val)
                    buf (Values_Get_all v k))
           [] (sort (map fst v))"

subsection \<open>Package \<^verbatim>\<open>net/http\<close>: requests, headers, responses\<close>

text \<open>
  \<^verbatim>\<open>http.Header\<close> is a map from a canonical key to the list of its values, kept as a
  list of entries with distinct keys.
\<close>

type_synonym Header = "(string \<times> string list) list"

record Request =
  Method :: string
  ReqURL :: URL
  ReqHeader :: Header
  ReqHost :: string

text \<open>
  A response as the client reads it: the status code, and what \<^verbatim>\<open>ioutil.ReadAll\<close>
  makes of the body, an error or the bytes.
\<close>

record Response =
  StatusCode :: int
  Body :: "goerror + string"

definition isToken :: "char \<Rightarrow> bool" where
  "isToken c = (isAlnum c \<or> c \<in> set (''!#$%&*+-.^_`|~'' @ [CHR 0x27]))"

fun canonicalCase :: "bool \<Rightarrow> string \<Rightarrow> string" where
  "canonicalCase upper [] = []"
| "canonicalCase upper (c # cs) =
     (let c' = (if upper then toUpperByte c else toLowerByte c)
      in c' # canonicalCase (c' = CHR ''-'') cs)"

definition CanonicalMIMEHeaderKey :: "string \<Rightarrow> string" where
  "CanonicalMIMEHeaderKey s = (if \<forall>c \<in> set s. isToken c then canonicalCase True s else s)"

definition Header_Add :: "Header \<Rightarrow> string \<Rightarrow> string \<Rightarrow> Header" where
  "Header_Add h key val = Values_Add h (CanonicalMIMEHeaderKey key) val"

definition Header_Get :: "Header \<Rightarrow> string \<Rightarrow> string" where
  "Header_Get h key =
     (case map_of h (CanonicalMIMEHeaderKey key) of
        None \<Rightarrow> []
      | Some [] \<Rightarrow> []
      | Some (v # vs) \<Rightarrow> v)"

definition validMethod :: "string \<Rightarrow> bool" where
  "validMethod method = (method \<noteq> [] \<and> (\<forall>c \<in> set method. isToken c))"

definition hasPort :: "string \<Rightarrow> bool" where
  "hasPort s =
     (case LastIndexByte s CHR '':'' of
        None \<Rightarrow> False
      | Some i \<Rightarrow> (case LastIndexByte s CHR '']'' of None \<Rightarrow> True | Some j \<Rightarrow> j < i))"

definition removeEmptyPort :: "string \<Rightarrow> string" where
  "removeEmptyPort host = (if hasPort host then TrimSuffix host '':'' else host)"

text \<open>
  \<^verbatim>\<open>http.NewRequest(method, url, nil)\<close>: the method is checked, the URL parsed again,
  the header starts empty. (The message of the method error is Go's \<^verbatim>\<open>%q\<close> of the
  method; the client's methods are \<open>GET\<close> and \<open>DELETE\<close>.)
\<close>

definition http_NewRequest :: "string \<Rightarrow> string \<Rightarrow> goerror + Request" where
  "http_NewRequest method0 url =
     (let method = (if method0 = [] then ''GET'' else method0) in
      if \<not> validMethod method
        then Inl (errorString (''net/http: invalid method '' @ [CHR 0x22] @ method @ [CHR 0x22]))
      else
        (case url_Parse url of
           Inl e \<Rightarrow> Inl e
         | Inr u \<Rightarrow>
             Inr \<lparr>Method = method, ReqURL = u\<lparr>Host := removeEmptyPort (Host u)\<rparr>,
                  ReqHeader = [], ReqHost = removeEmptyPort (Host u)\<rparr>))"

subsection \<open>The data of the client\<close>

text \<open>
  \<open>client\<close> is the \<^verbatim>\<open>*http.Client\<close>: \<^verbatim>\<open>c.client.Do(req)\<close> acts on the world outside
  the program (the network and the server, of type \<open>'w\<close>) and returns an error or a
  response.
\<close>

record 'w Client =
  token :: string
  server :: string
  client :: "'w \<Rightarrow> Request \<Rightarrow> (goerror + Response) \<times> 'w"

text \<open>\<open>'t\<close> is \<^verbatim>\<open>time.Time\<close>; the client never looks into it.\<close>

record 't Context =
  CreatedAt :: 't
  ID :: string
  Name :: string

text \<open>
  Of \<^verbatim>\<open>listContextsResponse\<close> the two fields the decoder fills. Its fields \<open>client\<close>
  and \<open>params\<close> are set once and never read.
\<close>

record 't listContextsResponse =
  Items :: "'t Context list"
  NextPageToken :: "string option"

record ErrorResponse =
  Message :: "string option"

record listContextsParams =
  OwnerID :: "string option"
  OwnerSlug :: "string option"
  OwnerType :: "string option"
  PageToken :: "string option"

text \<open>
  \<^verbatim>\<open>json.Unmarshal(bodyBytes, &dest)\<close> belongs to the standard library and is a
  parameter here, once for each type of \<open>dest\<close> the client decodes into: the bytes give
  an error or the decoded value.
\<close>

record 't json =
  Unmarshal_ErrorResponse :: "string \<Rightarrow> goerror + ErrorResponse"
  Unmarshal_listContextsResponse :: "string \<Rightarrow> goerror + 't listContextsResponse"

subsection \<open>Building requests\<close>

definition toSlug :: "string \<Rightarrow> string \<Rightarrow> string" where
  "toSlug org vcs = vcs @ ''/'' @ org"

definition NewClient ::
  "('w \<Rightarrow> Request \<Rightarrow> (goerror + Response) \<times> 'w) \<Rightarrow> string \<Rightarrow> string \<Rightarrow> 'w Client" where
  "NewClient http server0 token0 =
     \<lparr>token = token0,
      server = (if \<not> HasSuffix server0 ''/'' then server0 @ ''/'' else server0),
      client = http\<rparr>"

definition newHTTPRequest :: "'w Client \<Rightarrow> string \<Rightarrow> string \<Rightarrow> Request result" where
  "newHTTPRequest c method url =
     (case http_NewRequest method url of
        Inl err \<Rightarrow> Err err
      | Inr req \<Rightarrow>
          Ok (req\<lparr>ReqHeader :=
                    Header_Add (Header_Add (ReqHeader req) ''circle-token'' (token c))
                               ''Accept'' ''application/json''\<rparr>))"

text \<open>The local \<open>urlParams\<close> of \<^verbatim>\<open>newListContextsRequest\<close>, after its four tests.\<close>

definition urlParams :: "listContextsParams \<Rightarrow> Values" where
  "urlParams params =
     (let v0 = [];
          v1 = (case OwnerID params of None \<Rightarrow> v0 | Some x \<Rightarrow> Values_Add v0 ''owner-id'' x);
          v2 = (case OwnerSlug params of None \<Rightarrow> v1 | Some x \<Rightarrow> Values_Add v1 ''owner-slug'' x);
          v3 = (case OwnerType params of None \<Rightarrow> v2 | Some x \<Rightarrow> Values_Add v2 ''owner-type'' x);
          v4 = (case PageToken params of None \<Rightarrow> v3 | Some x \<Rightarrow> Values_Add v3 ''page-token'' x)
      in v4)"

definition newListContextsRequest :: "'w Client \<Rightarrow> listContextsParams \<Rightarrow> Request result" where
  "newListContextsRequest c params =
     (case url_Parse (server c) of
        Inl err \<Rightarrow> Err err
      | Inr queryURL \<Rightarrow>
          (case URL_Parse queryURL ''context'' of
             Inl err \<Rightarrow> Err err
           | Inr queryURL' \<Rightarrow>
               newHTTPRequest c ''GET''
                 (URL_String (queryURL'\<lparr>RawQuery := Values_Encode (urlParams params)\<rparr>))))"

text \<open>
  In \<^verbatim>\<open>newDeleteContextRequest\<close> the error of the second parse is assigned and not
  tested: when that parse fails, \<open>queryURL\<close> is nil and \<^verbatim>\<open>queryURL.String()\<close>
  dereferences it.
\<close>

definition newDeleteContextRequest :: "'w Client \<Rightarrow> string \<Rightarrow> Request result" where
  "newDeleteContextRequest c contextID =
     (case url_Parse (server c) of
        Inl err \<Rightarrow> Err err
      | Inr queryURL \<Rightarrow>
          (case URL_Parse queryURL (''context/'' @ contextID) of
             Inl err \<Rightarrow> Panic
           | Inr queryURL' \<Rightarrow> newHTTPRequest c ''DELETE'' (URL_String queryURL')))"

subsection \<open>Sending requests and decoding responses\<close>

text \<open>
  Each operation takes the world and returns it, changed by the requests sent.
  \<^verbatim>\<open>*dest.Message\<close> dereferences a pointer that the decoder leaves nil when the body
  has no message.
\<close>

definition DeleteContext ::
  "'t json \<Rightarrow> 'w Client \<Rightarrow> 'w \<Rightarrow> string \<Rightarrow> unit result \<times> 'w" where
  "DeleteContext js c w contextID =
     (case newDeleteContextRequest c contextID of
        Err err \<Rightarrow> (Err err, w)
      | Panic \<Rightarrow> (Panic, w)
      | Ok req \<Rightarrow>
          (case client c w req of
             (Inl err, w') \<Rightarrow> (Err err, w')
           | (Inr resp, w') \<Rightarrow>
               (case Body resp of
                  Inl err \<Rightarrow> (Err err, w')
                | Inr bodyBytes \<Rightarrow>
                    if StatusCode resp \<noteq> 200 then
                      (case Unmarshal_ErrorResponse js bodyBytes of
                         Inl err \<Rightarrow> (Err err, w')
                       | Inr dest \<Rightarrow>
                           (case Message dest of
                              None \<Rightarrow> (Panic, w')
                            | Some m \<Rightarrow> (Err (fundamental m), w')))
                    else (Ok (), w'))))"

definition listContexts ::
  "'t json \<Rightarrow> 'w Client \<Rightarrow> 'w \<Rightarrow> listContextsParams
     \<Rightarrow> 't listContextsResponse result \<times> 'w" where
  "listContexts js c w params =
     (case newListContextsRequest c params of
        Err err \<Rightarrow> (Err err, w)
      | Panic \<Rightarrow> (Panic, w)
      | Ok req \<Rightarrow>
          (case client c w req of
             (Inl err, w') \<Rightarrow> (Err err, w')
           | (Inr resp, w') \<Rightarrow>
               (case Body resp of
                  Inl err \<Rightarrow> (Err err, w')
                | Inr bodyBytes \<Rightarrow>
                    if StatusCode resp \<noteq> 200 then
                      (case Unmarshal_ErrorResponse js bodyBytes of
                         Inl err \<Rightarrow> (Err err, w')
                       | Inr dest \<Rightarrow>
                           (case Message dest of
                              None \<Rightarrow> (Panic, w')
                            | Some m \<Rightarrow> (Err (fundamental m), w')))
                    else
                      (case Unmarshal_listContextsResponse js bodyBytes of
                         Inl err \<Rightarrow> (Err err, w')
                       | Inr dest \<Rightarrow> (Ok dest, w')))))"

subsection \<open>Walking the pages\<close>

text \<open>
  The two walks call themselves for the next page as long as the server hands out a
  token, so they need not return: the value \<open>None\<close> is a walk that goes on for ever.
  \<open>params\<close> is a pointer in the source; the walk stores the token in it and passes it on.
\<close>

partial_function (option) listAllContexts ::
  "'t json \<Rightarrow> 'w Client \<Rightarrow> 'w \<Rightarrow> listContextsParams
     \<Rightarrow> ('t Context list result \<times> 'w) option" where
  "listAllContexts js c w params =
     (case listContexts js c w params of
        (Err err, w') \<Rightarrow> Some (Err err, w')
      | (Panic, w') \<Rightarrow> Some (Panic, w')
      | (Ok resp, w') \<Rightarrow>
          (case NextPageToken resp of
             None \<Rightarrow> Some (Ok (Items resp), w')
           | Some t \<Rightarrow>
               Option.bind (listAllContexts js c w' (params\<lparr>PageToken := Some t\<rparr>))
                 (\<lambda>r. case r of
                        (Err err, w'') \<Rightarrow> Some (Err err, w'')
                      | (Panic, w'') \<Rightarrow> Some (Panic, w'')
                      | (Ok after, w'') \<Rightarrow> Some (Ok (Items resp @ after), w''))))"

declare listAllContexts.simps [code]

text \<open>The loop over the items of one page: the first item of that name.\<close>

fun firstNamed :: "string \<Rightarrow> 't Context list \<Rightarrow> 't Context option" where
  "firstNamed name [] = None"
| "firstNamed name (context # items) =
     (if Name context = name then Some context else firstNamed name items)"

definition notFound :: "string \<Rightarrow> goerror" where
  "notFound name =
     errorString (''Cannot find context named '' @ [CHR 0x27] @ name @ [CHR 0x27])"

partial_function (option) getContextByName ::
  "'t json \<Rightarrow> 'w Client \<Rightarrow> 'w \<Rightarrow> listContextsParams \<Rightarrow> string
     \<Rightarrow> ('t Context result \<times> 'w) option" where
  "getContextByName js c w params name =
     (case listContexts js c w params of
        (Err err, w') \<Rightarrow> Some (Err err, w')
      | (Panic, w') \<Rightarrow> Some (Panic, w')
      | (Ok resp, w') \<Rightarrow>
          (case firstNamed name (Items resp) of
             Some context \<Rightarrow> Some (Ok context, w')
           | None \<Rightarrow>
               (case NextPageToken resp of
                  Some t \<Rightarrow> getContextByName js c w' (params\<lparr>PageToken := Some t\<rparr>) name
                | None \<Rightarrow> Some (Err (notFound name), w'))))"

declare getContextByName.simps [code]

definition slugParams :: "string \<Rightarrow> string \<Rightarrow> listContextsParams" where
  "slugParams org vcs =
     \<lparr>OwnerID = None, OwnerSlug = Some (toSlug org vcs), OwnerType = None, PageToken = None\<rparr>"

definition Contexts ::
  "'t json \<Rightarrow> 'w Client \<Rightarrow> 'w \<Rightarrow> string \<Rightarrow> string
     \<Rightarrow> ('t Context list result \<times> 'w) option" where
  "Contexts js c w org vcs = listAllContexts js c w (slugParams org vcs)"

definition ContextByName ::
  "'t json \<Rightarrow> 'w Client \<Rightarrow> 'w \<Rightarrow> string \<Rightarrow> string \<Rightarrow> string
     \<Rightarrow> ('t Context result \<times> 'w) option" where
  "ContextByName js c w org vcs name = getContextByName js c w (slugParams org vcs) name"

subsection \<open>The vocabulary of the specification\<close>

text \<open>
  A chain of pages: the fetches, each sent with the token the last one returned, return
  exactly these pages, every one with a token for the next. The result is the world and
  the parameters the next fetch starts from; \<open>None\<close> when the server does not serve
  these pages.
\<close>

fun fetchChain ::
  "'t json \<Rightarrow> 'w Client \<Rightarrow> 'w \<Rightarrow> listContextsParams \<Rightarrow> 't Context list list
     \<Rightarrow> ('w \<times> listContextsParams) option" where
  "fetchChain js c w params [] = Some (w, params)"
| "fetchChain js c w params (page # pages) =
     (case listContexts js c w params of
        (Ok resp, w') \<Rightarrow>
          (case NextPageToken resp of
             Some t \<Rightarrow>
               if Items resp = page
                 then fetchChain js c w' (params\<lparr>PageToken := Some t\<rparr>) pages
               else None
           | None \<Rightarrow> None)
      | (Err err, w') \<Rightarrow> None
      | (Panic, w') \<Rightarrow> None)"

text \<open>
  The query string as the specification words it: the fields that are present, under
  their fixed names and in the fixed order id, slug, type, token, each value escaped,
  joined by \<open>&\<close>.
\<close>

definition presentFields :: "listContextsParams \<Rightarrow> (string \<times> string) list" where
  "presentFields params =
     [(k, v). (k, Some v) \<leftarrow> [(''owner-id'', OwnerID params), (''owner-slug'', OwnerSlug params),
                              (''owner-type'', OwnerType params), (''page-token'', PageToken params)]]"

definition specQuery :: "listContextsParams \<Rightarrow> string" where
  "specQuery params = Join (map (\<lambda>(k, v). k @ ''='' @ QueryEscape v) (presentFields params)) ''&''"

text \<open>
  The URL of the listing before its query is set: the base server URL of the client
  joined with the resource path \<open>context\<close>, printed.
\<close>

definition joinedURL :: "'w Client \<Rightarrow> goerror + string" where
  "joinedURL c =
     (case url_Parse (server c) of
        Inl err \<Rightarrow> Inl err
      | Inr queryURL \<Rightarrow>
          (case URL_Parse queryURL ''context'' of
             Inl err \<Rightarrow> Inl err
           | Inr queryURL' \<Rightarrow> Inr (URL_String queryURL')))"

text \<open>The bytes an escaped value is made of: unreserved, or the marks of an escape.\<close>

definition urlSafe :: "char \<Rightarrow> bool" where
  "urlSafe c = (isAlnum c \<or> c \<in> set ''-_.~%+'')"

text \<open>The headers every request is to carry.\<close>

definition authenticated :: "'w Client \<Rightarrow> Request \<Rightarrow> bool" where
  "authenticated c req =
     (Header_Get (ReqHeader req) ''circle-token'' = token c
      \<and> Header_Get (ReqHeader req) ''Accept'' = ''application/json'')"

text \<open>A path without the segments \<open>.\<close> and \<open>..\<close>, which resolving a reference removes.\<close>

definition dotFree :: "string \<Rightarrow> bool" where
  "dotFree p = (''.'' \<notin> set (Split p CHR ''/'') \<and> ''..'' \<notin> set (Split p CHR ''/''))"

subsection \<open>A server to run the client against\<close>

text \<open>
  A small server and the decoder's answers on the bodies it sends, for running the
  operations on concrete inputs. The world counts the requests sent. The server wants
  the token \<open>secret\<close>. The listing of \<open>gh/acme\<close> has three pages; that of \<open>gh/down\<close>
  fails on its second page; that of \<open>gh/odd\<close> fails with an error body that has no
  message, as does the deletion of \<open>c-500\<close>. The decoder is a table of the bodies
  this server sends, with what \<^verbatim>\<open>json.Unmarshal\<close> makes of each; a body outside
  the table is answered with an error.
\<close>

definition ctx :: "string \<Rightarrow> string \<Rightarrow> string Context" where
  "ctx i n = \<lparr>CreatedAt = ''0001-01-01T00:00:00Z'', ID = i, Name = n\<rparr>"

definition page1Body :: string where
  "page1Body = ''{\"items\":[{\"id\":\"1\",\"name\":\"alpha\"},{\"id\":\"2\",\"name\":\"beta\"}],\"next_page_token\":\"t1\"}''"

definition page2Body :: string where
  "page2Body = ''{\"items\":[{\"id\":\"3\",\"name\":\"beta\"},{\"id\":\"4\",\"name\":\"gamma\"}],\"next_page_token\":\"t2\"}''"

definition page3Body :: string where
  "page3Body = ''{\"items\":[{\"id\":\"5\",\"name\":\"gamma\"}],\"next_page_token\":null}''"

definition demoJSON :: "string json" where
  "demoJSON =
     \<lparr>Unmarshal_ErrorResponse =
        (\<lambda>b. if b = ''{}'' then Inr \<lparr>Message = None\<rparr>
              else if b = ''null'' then Inr \<lparr>Message = None\<rparr>
              else if b = ''{\"message\":null}'' then Inr \<lparr>Message = None\<rparr>
              else if b = ''{\"message\":\"Context not found.\"}''
                then Inr \<lparr>Message = Some ''Context not found.''\<rparr>
              else if b = ''{\"message\":\"Service unavailable\"}''
                then Inr \<lparr>Message = Some ''Service unavailable''\<rparr>
              else if b = ''{\"message\":\"Invalid token provided.\"}''
                then Inr \<lparr>Message = Some ''Invalid token provided.''\<rparr>
              else Inl (otherError ''unexpected end of JSON input'')),
      Unmarshal_listContextsResponse =
        (\<lambda>b. if b = page1Body
                then Inr \<lparr>Items = [ctx ''1'' ''alpha'', ctx ''2'' ''beta''],
                          NextPageToken = Some ''t1''\<rparr>
              else if b = page2Body
                then Inr \<lparr>Items = [ctx ''3'' ''beta'', ctx ''4'' ''gamma''],
                          NextPageToken = Some ''t2''\<rparr>
              else if b = page3Body
                then Inr \<lparr>Items = [ctx ''5'' ''gamma''], NextPageToken = None\<rparr>
              else Inl (otherError ''unexpected end of JSON input''))\<rparr>"

definition demoHTTP :: "nat \<Rightarrow> Request \<Rightarrow> (goerror + Response) \<times> nat" where
  "demoHTTP n req =
     (let r = (Method req, Path (ReqURL req), RawQuery (ReqURL req));
          list = ''/api/v2/context''
      in (if Header_Get (ReqHeader req) ''circle-token'' \<noteq> ''secret''
            then Inr \<lparr>StatusCode = 401, Body = Inr ''{\"message\":\"Invalid token provided.\"}''\<rparr>
          else if r = (''GET'', list, ''owner-slug=gh%2Facme'')
            then Inr \<lparr>StatusCode = 200, Body = Inr page1Body\<rparr>
          else if r = (''GET'', list, ''owner-slug=gh%2Facme&page-token=t1'')
            then Inr \<lparr>StatusCode = 200, Body = Inr page2Body\<rparr>
          else if r = (''GET'', list, ''owner-slug=gh%2Facme&page-token=t2'')
            then Inr \<lparr>StatusCode = 200, Body = Inr page3Body\<rparr>
          else if r = (''GET'', list, ''owner-slug=gh%2Fdown'')
            then Inr \<lparr>StatusCode = 200, Body = Inr page1Body\<rparr>
          else if r = (''GET'', list, ''owner-slug=gh%2Fdown&page-token=t1'')
            then Inr \<lparr>StatusCode = 503, Body = Inr ''{\"message\":\"Service unavailable\"}''\<rparr>
          else if r = (''GET'', list, ''owner-slug=gh%2Fodd'')
            then Inr \<lparr>StatusCode = 500, Body = Inr ''{}''\<rparr>
          else if r = (''DELETE'', ''/api/v2/context/c-1'', [])
            then Inr \<lparr>StatusCode = 200, Body = Inr ''{\"message\":\"Context deleted.\"}''\<rparr>
          else if r = (''DELETE'', ''/api/v2/context/c-404'', [])
            then Inr \<lparr>StatusCode = 404, Body = Inr ''{\"message\":\"Context not found.\"}''\<rparr>
          else if r = (''DELETE'', ''/api/v2/context/c-500'', [])
            then Inr \<lparr>StatusCode = 500, Body = Inr ''{}''\<rparr>
          else Inl (otherError ''connection refused''),
          Suc n))"

definition demoClient :: "nat Client" where
  "demoClient = NewClient demoHTTP ''https://circleci.com/api/v2'' ''secret''"

text \<open>The requests the client is to send to this server.\<close>

definition demoRequest :: "string \<Rightarrow> string \<Rightarrow> string \<Rightarrow> Request" where
  "demoRequest method path query =
     \<lparr>Method = method,
      ReqURL = emptyURL\<lparr>Scheme := ''https'', Host := ''circleci.com'', Path := path,
                         RawQuery := query\<rparr>,
      ReqHeader = [(''Circle-Token'', [''secret'']), (''Accept'', [''application/json''])],
      ReqHost = ''circleci.com''\<rparr>"

section \<open>Properties\<close>

subsection \<open>The walk over the pages\<close>

lemma firstNamed_none: "(firstNamed name items = None) = (\<forall>x \<in> set items. Name x \<noteq> name)"
  by (induction items) auto

lemma firstNamed_find: "firstNamed name items = find (\<lambda>x. Name x = name) items"
  by (induction items) auto

lemma find_skip:
  "\<forall>x \<in> set xs. \<not> P x \<Longrightarrow> find P (xs @ ys) = find P ys"
  by (induction xs) auto

lemma find_stop:
  "find P xs = Some x \<Longrightarrow> find P (xs @ ys) = Some x"
  by (induction xs) (auto split: if_splits)

lemma fetchChain_step:
  assumes "fetchChain js c w params (page # pages) = Some (w1, p1)"
  obtains resp w' t where
    "listContexts js c w params = (Ok resp, w')" and
    "NextPageToken resp = Some t" and
    "Items resp = page" and
    "fetchChain js c w' (params\<lparr>PageToken := Some t\<rparr>) pages = Some (w1, p1)"
  using assms by (auto split: prod.splits result.splits option.splits if_splits)

lemma listAll_last:
  assumes "listContexts js c w params = (Ok resp, w')" and "NextPageToken resp = None"
  shows "listAllContexts js c w params = Some (Ok (Items resp), w')"
  using assms by (subst listAllContexts.simps) simp

lemma listAll_fail:
  assumes "listContexts js c w params = (Err e, w')"
  shows "listAllContexts js c w params = Some (Err e, w')"
  using assms by (subst listAllContexts.simps) simp

lemma listAll_panic:
  assumes "listContexts js c w params = (Panic, w')"
  shows "listAllContexts js c w params = Some (Panic, w')"
  using assms by (subst listAllContexts.simps) simp

lemma listAll_chain_ok:
  "fetchChain js c w params init = Some (w1, p1) \<Longrightarrow>
   listAllContexts js c w1 p1 = Some (Ok rest, w2) \<Longrightarrow>
   listAllContexts js c w params = Some (Ok (concat init @ rest), w2)"
proof (induction init arbitrary: w params)
  case Nil
  then show ?case by simp
next
  case (Cons page pages)
  from Cons.prems(1) obtain resp w' t where
    f: "listContexts js c w params = (Ok resp, w')" and
    t: "NextPageToken resp = Some t" and
    i: "Items resp = page" and
    r: "fetchChain js c w' (params\<lparr>PageToken := Some t\<rparr>) pages = Some (w1, p1)"
    by (rule fetchChain_step)
  from Cons.IH [OF r Cons.prems(2)]
  have "listAllContexts js c w' (params\<lparr>PageToken := Some t\<rparr>)
          = Some (Ok (concat pages @ rest), w2)" .
  with f t i show ?case
    by (subst listAllContexts.simps) simp
qed

lemma listAll_chain_err:
  "fetchChain js c w params init = Some (w1, p1) \<Longrightarrow>
   listAllContexts js c w1 p1 = Some (Err e, w2) \<Longrightarrow>
   listAllContexts js c w params = Some (Err e, w2)"
proof (induction init arbitrary: w params)
  case Nil
  then show ?case by simp
next
  case (Cons page pages)
  from Cons.prems(1) obtain resp w' t where
    f: "listContexts js c w params = (Ok resp, w')" and
    t: "NextPageToken resp = Some t" and
    r: "fetchChain js c w' (params\<lparr>PageToken := Some t\<rparr>) pages = Some (w1, p1)"
    by (rule fetchChain_step)
  from Cons.IH [OF r Cons.prems(2)]
  have "listAllContexts js c w' (params\<lparr>PageToken := Some t\<rparr>) = Some (Err e, w2)" .
  with f t show ?case
    by (subst listAllContexts.simps) simp
qed

lemma getByName_chain:
  "fetchChain js c w params init = Some (w1, p1) \<Longrightarrow>
   \<forall>x \<in> set (concat init). Name x \<noteq> name \<Longrightarrow>
   getContextByName js c w params name = getContextByName js c w1 p1 name"
proof (induction init arbitrary: w params)
  case Nil
  then show ?case by simp
next
  case (Cons page pages)
  from Cons.prems(1) obtain resp w' t where
    f: "listContexts js c w params = (Ok resp, w')" and
    t: "NextPageToken resp = Some t" and
    i: "Items resp = page" and
    r: "fetchChain js c w' (params\<lparr>PageToken := Some t\<rparr>) pages = Some (w1, p1)"
    by (rule fetchChain_step)
  from Cons.prems(2) have n: "firstNamed name page = None" and
    rest: "\<forall>x \<in> set (concat pages). Name x \<noteq> name"
    by (auto simp: firstNamed_none)
  from Cons.IH [OF r rest]
  have "getContextByName js c w' (params\<lparr>PageToken := Some t\<rparr>) name
          = getContextByName js c w1 p1 name" .
  with f t i n show ?case
    by (subst getContextByName.simps) simp
qed

lemma demo_chain_acme:
  "fetchChain demoJSON demoClient 0 (slugParams ''acme'' ''gh'')
     [[ctx ''1'' ''alpha'', ctx ''2'' ''beta''], [ctx ''3'' ''beta'', ctx ''4'' ''gamma'']]
   = Some (2, (slugParams ''acme'' ''gh'')\<lparr>PageToken := Some ''t2''\<rparr>)"
  by code_simp

lemma demo_chain_acme1:
  "fetchChain demoJSON demoClient 0 (slugParams ''acme'' ''gh'')
     [[ctx ''1'' ''alpha'', ctx ''2'' ''beta'']]
   = Some (1, (slugParams ''acme'' ''gh'')\<lparr>PageToken := Some ''t1''\<rparr>)"
  by code_simp

lemma demo_page2:
  "listContexts demoJSON demoClient 1 ((slugParams ''acme'' ''gh'')\<lparr>PageToken := Some ''t1''\<rparr>)
   = (Ok \<lparr>Items = [ctx ''3'' ''beta'', ctx ''4'' ''gamma''], NextPageToken = Some ''t2''\<rparr>, 2)"
  by code_simp

lemma demo_page3:
  "listContexts demoJSON demoClient 2 ((slugParams ''acme'' ''gh'')\<lparr>PageToken := Some ''t2''\<rparr>)
   = (Ok \<lparr>Items = [ctx ''5'' ''gamma''], NextPageToken = None\<rparr>, 3)"
  by code_simp

lemma demo_chain_down:
  "fetchChain demoJSON demoClient 0 (slugParams ''down'' ''gh'')
     [[ctx ''1'' ''alpha'', ctx ''2'' ''beta'']]
   = Some (1, (slugParams ''down'' ''gh'')\<lparr>PageToken := Some ''t1''\<rparr>)"
  by code_simp

lemma demo_down2:
  "listContexts demoJSON demoClient 1 ((slugParams ''down'' ''gh'')\<lparr>PageToken := Some ''t1''\<rparr>)
   = (Err (fundamental ''Service unavailable''), 2)"
  by code_simp

text \<open>
  C2. When the server serves a chain of pages, the last one without a token, the
  collect-all walk returns, and it returns the items of all the pages, page after page
  and in the order of each page, nothing dropped, merged or moved; their number is the
  sum of the sizes of the pages. \<^verbatim>\<open>Contexts\<close> is that walk started from the slug of
  the organisation.
\<close>

theorem collect_all_in_server_order:
  assumes "fetchChain js c w params init = Some (w1, p1)"
    and "listContexts js c w1 p1 = (Ok resp, w2)"
    and "NextPageToken resp = None"
  shows "listAllContexts js c w params = Some (Ok (concat (init @ [Items resp])), w2)
         \<and> length (concat (init @ [Items resp])) = sum_list (map length (init @ [Items resp]))
         \<and> (params = slugParams org vcs \<longrightarrow>
              Contexts js c w org vcs = Some (Ok (concat (init @ [Items resp])), w2))"
proof -
  from assms(2,3) have "listAllContexts js c w1 p1 = Some (Ok (Items resp), w2)"
    by (rule listAll_last)
  with assms(1) have "listAllContexts js c w params = Some (Ok (concat init @ Items resp), w2)"
    by (rule listAll_chain_ok)
  then show ?thesis
    by (auto simp: Contexts_def length_concat)
qed

theorem collect_all_witness:
  "fetchChain demoJSON demoClient 0 (slugParams ''acme'' ''gh'')
     [[ctx ''1'' ''alpha'', ctx ''2'' ''beta''], [ctx ''3'' ''beta'', ctx ''4'' ''gamma'']]
     = Some (2, (slugParams ''acme'' ''gh'')\<lparr>PageToken := Some ''t2''\<rparr>)
   \<and> Contexts demoJSON demoClient 0 ''acme'' ''gh''
     = Some (Ok [ctx ''1'' ''alpha'', ctx ''2'' ''beta'', ctx ''3'' ''beta'', ctx ''4'' ''gamma'',
                 ctx ''5'' ''gamma''], 3)"
  using collect_all_in_server_order [OF demo_chain_acme demo_page3, of "''acme''" "''gh''"]
    demo_chain_acme
  by simp

text \<open>
  C3. After pages that hold no item of the wanted name, the find walk looks through the
  next page. If that page has such an item, the walk returns the first of them, which is
  the first in the whole listing whatever pages follow, and the world is the one left
  by the fetch of that page: no later page is asked for. If that page has none and
  carries no token, the walk fails with the error that names the wanted context.
  \<^verbatim>\<open>ContextByName\<close> is that walk started from the slug of the organisation.
\<close>

theorem find_first_by_name:
  assumes "fetchChain js c w params init = Some (w1, p1)"
    and "\<forall>x \<in> set (concat init). Name x \<noteq> name"
    and "listContexts js c w1 p1 = (Ok resp, w2)"
  shows "(find (\<lambda>x. Name x = name) (Items resp) = Some found \<longrightarrow>
            getContextByName js c w params name = Some (Ok found, w2)
            \<and> find (\<lambda>x. Name x = name) (concat (init @ [Items resp] @ later)) = Some found)
         \<and> (find (\<lambda>x. Name x = name) (Items resp) = None \<and> NextPageToken resp = None \<longrightarrow>
              getContextByName js c w params name
                = Some (Err (errorString (''Cannot find context named '' @ [CHR 0x27] @ name
                                          @ [CHR 0x27])), w2))
         \<and> (params = slugParams org vcs \<longrightarrow>
              ContextByName js c w org vcs name = getContextByName js c w params name)"
proof -
  have walk: "getContextByName js c w params name = getContextByName js c w1 p1 name"
    using assms(1,2) by (rule getByName_chain)
  have hit: "getContextByName js c w1 p1 name = Some (Ok found, w2)"
    if "find (\<lambda>x. Name x = name) (Items resp) = Some found"
    using that assms(3) by (subst getContextByName.simps) (simp add: firstNamed_find)
  have first: "find (\<lambda>x. Name x = name) (concat (init @ [Items resp] @ later)) = Some found"
    if "find (\<lambda>x. Name x = name) (Items resp) = Some found"
    using that assms(2) by (simp add: find_skip find_stop)
  have miss: "getContextByName js c w1 p1 name = Some (Err (notFound name), w2)"
    if "find (\<lambda>x. Name x = name) (Items resp) = None" and "NextPageToken resp = None"
    using that assms(3) by (subst getContextByName.simps) (simp add: firstNamed_find)
  show ?thesis
    using walk hit first miss by (simp add: ContextByName_def notFound_def)
qed

theorem find_first_by_name_witness:
  "ContextByName demoJSON demoClient 0 ''acme'' ''gh'' ''gamma'' = Some (Ok (ctx ''4'' ''gamma''), 2)
   \<and> find (\<lambda>x. Name x = ''gamma'')
        (concat ([[ctx ''1'' ''alpha'', ctx ''2'' ''beta'']]
                 @ [[ctx ''3'' ''beta'', ctx ''4'' ''gamma'']] @ [[ctx ''5'' ''gamma'']]))
      = Some (ctx ''4'' ''gamma'')
   \<and> ContextByName demoJSON demoClient 0 ''acme'' ''gh'' ''delta''
      = Some (Err (errorString (''Cannot find context named '' @ [CHR 0x27] @ ''delta''
                                @ [CHR 0x27])), 3)"
proof -
  have no1: "\<forall>x \<in> set (concat [[ctx ''1'' ''alpha'', ctx ''2'' ''beta'']]). Name x \<noteq> ''gamma''"
    by (simp add: ctx_def)
  have no2: "\<forall>x \<in> set (concat [[ctx ''1'' ''alpha'', ctx ''2'' ''beta''],
                                 [ctx ''3'' ''beta'', ctx ''4'' ''gamma'']]). Name x \<noteq> ''delta''"
    by (simp add: ctx_def)
  have hit: "find (\<lambda>x. Name x = ''gamma'') [ctx ''3'' ''beta'', ctx ''4'' ''gamma'']
               = Some (ctx ''4'' ''gamma'')"
    by (simp add: ctx_def)
  have miss: "find (\<lambda>x. Name x = ''delta'') [ctx ''5'' ''gamma''] = None"
    by (simp add: ctx_def)
  from find_first_by_name [OF demo_chain_acme1 no1 demo_page2,
      of "ctx ''4'' ''gamma''" "[[ctx ''5'' ''gamma'']]" "''acme''" "''gh''"]
    find_first_by_name [OF demo_chain_acme no2 demo_page3,
      of "ctx ''4'' ''gamma''" "[]" "''acme''" "''gh''"]
    hit miss
  show ?thesis by simp
qed

text \<open>The ways a fetch returns an error: the transport, the body, the status, the decoder.\<close>

lemma listContexts_failures:
  assumes "newListContextsRequest c params = Ok req"
  shows "client c w req = (Inl e, w') \<Longrightarrow> listContexts js c w params = (Err e, w')"
    and "client c w req = (Inr resp, w') \<Longrightarrow> Body resp = Inl e \<Longrightarrow>
         listContexts js c w params = (Err e, w')"
    and "client c w req = (Inr resp, w') \<Longrightarrow> Body resp = Inr bodyBytes \<Longrightarrow>
         StatusCode resp \<noteq> 200 \<Longrightarrow> Unmarshal_ErrorResponse js bodyBytes = Inl e \<Longrightarrow>
         listContexts js c w params = (Err e, w')"
    and "client c w req = (Inr resp, w') \<Longrightarrow> Body resp = Inr bodyBytes \<Longrightarrow>
         StatusCode resp \<noteq> 200 \<Longrightarrow>
         Unmarshal_ErrorResponse js bodyBytes = Inr \<lparr>Message = Some m\<rparr> \<Longrightarrow>
         listContexts js c w params = (Err (fundamental m), w')"
    and "client c w req = (Inr resp, w') \<Longrightarrow> Body resp = Inr bodyBytes \<Longrightarrow>
         StatusCode resp = 200 \<Longrightarrow> Unmarshal_listContextsResponse js bodyBytes = Inl e \<Longrightarrow>
         listContexts js c w params = (Err e, w')"
  using assms by (simp_all add: listContexts_def)

text \<open>
  C4. When a fetch of the chain returns an error (\<open>listContexts_failures\<close> lists the
  ways), after any number of pages fetched, the collect-all walk returns that error and
  none of the items fetched before it (in Go, \<^verbatim>\<open>return nil, err\<close>); so does
  \<^verbatim>\<open>Contexts\<close>.
\<close>

theorem collect_all_fails_atomically:
  assumes "fetchChain js c w params init = Some (w1, p1)"
    and "listContexts js c w1 p1 = (Err e, w2)"
  shows "listAllContexts js c w params = Some (Err e, w2)
         \<and> (params = slugParams org vcs \<longrightarrow> Contexts js c w org vcs = Some (Err e, w2))"
proof -
  from assms(2) have "listAllContexts js c w1 p1 = Some (Err e, w2)"
    by (rule listAll_fail)
  with assms(1) have "listAllContexts js c w params = Some (Err e, w2)"
    by (rule listAll_chain_err)
  then show ?thesis
    by (auto simp: Contexts_def)
qed

theorem collect_all_fails_witness:
  "fetchChain demoJSON demoClient 0 (slugParams ''down'' ''gh'') [[ctx ''1'' ''alpha'', ctx ''2'' ''beta'']]
     = Some (1, (slugParams ''down'' ''gh'')\<lparr>PageToken := Some ''t1''\<rparr>)
   \<and> Contexts demoJSON demoClient 0 ''down'' ''gh'' = Some (Err (fundamental ''Service unavailable''), 2)"
  using collect_all_fails_atomically [OF demo_chain_down demo_down2, of "''down''" "''gh''"]
    demo_chain_down
  by simp


subsection \<open>Requests\<close>

lemma key_order:
  "''owner-id'' \<le> ''owner-slug''" "''owner-id'' \<le> ''owner-type''"
  "''owner-id'' \<le> ''page-token''" "''owner-slug'' \<le> ''owner-type''"
  "''owner-slug'' \<le> ''page-token''" "''owner-type'' \<le> ''page-token''"
  by code_simp+

lemma QueryEscape_key:
  "QueryEscape ''owner-id'' = ''owner-id''" "QueryEscape ''owner-slug'' = ''owner-slug''"
  "QueryEscape ''owner-type'' = ''owner-type''" "QueryEscape ''page-token'' = ''page-token''"
  by code_simp+

lemma encode_is_specQuery: "Values_Encode (urlParams params) = specQuery params"
  by (cases "OwnerID params"; cases "OwnerSlug params"; cases "OwnerType params";
      cases "PageToken params")
     (simp_all add: urlParams_def Values_Encode_def specQuery_def presentFields_def
        Values_Get_all_def QueryEscape_key key_order)

lemma specQuery_empty: "(specQuery params = []) = (presentFields params = [])"
  by (cases "OwnerID params"; cases "OwnerSlug params"; cases "OwnerType params";
      cases "PageToken params")
     (simp_all add: specQuery_def presentFields_def)

lemma upperhex_alnum: "n < 16 \<Longrightarrow> isAlnum (upperhex n)"
proof -
  have "list_all (\<lambda>n. isAlnum (upperhex n)) [0..<16]"
    by code_simp
  moreover assume "n < 16"
  ultimately show ?thesis
    by (simp add: list_all_iff)
qed

lemma of_char_div16: "(of_char c :: nat) div 16 < 16"
proof -
  have "(of_char c :: nat) mod 256 = of_char c"
    by simp
  then have "(of_char c :: nat) < 256"
    by (metis mod_less_divisor zero_less_numeral)
  then show ?thesis by arith
qed

lemma unescaped_safe: "\<not> shouldEscape c encodeQueryComponent \<Longrightarrow> urlSafe c"
  by (auto simp: shouldEscape_def urlSafe_def split: if_splits)

lemma escapeByte_safe: "list_all urlSafe (escapeByte encodeQueryComponent c)"
  by (simp add: escapeByte_def upperhex_alnum of_char_div16 unescaped_safe)
     (simp add: urlSafe_def upperhex_alnum of_char_div16)

lemma QueryEscape_safe: "list_all urlSafe (QueryEscape v)"
  by (induction v) (simp_all add: QueryEscape_def escape_def escapeByte_safe)

lemma url_Parse_context: "url_Parse ''context'' = Inr (emptyURL\<lparr>Path := ''context''\<rparr>)"
  by code_simp

lemma EscapedPath_context: "EscapedPath (emptyURL\<lparr>Path := ''context''\<rparr>) = ''context''"
  by code_simp

lemma join_context:
  assumes "URL_Parse b ''context'' = Inr u"
  shows "Scheme u = Scheme b \<and> Opaque u = [] \<and> User u = User b \<and> Host u = Host b
         \<and> \<not> ForceQuery u \<and> RawQuery u = [] \<and> Fragment u = []"
  using assms
  by (auto simp: URL_Parse_def url_Parse_context ResolveReference_def emptyURL_def setPath_def
        Let_def split: sum.splits)

lemma EscapedPath_query: "EscapedPath (u\<lparr>RawQuery := q\<rparr>) = EscapedPath u"
  by (simp add: EscapedPath_def)

lemma String_with_query:
  assumes "\<not> ForceQuery u" and "RawQuery u = []" and "Fragment u = []"
  shows "URL_String (u\<lparr>RawQuery := q\<rparr>) = URL_String u @ (if q = [] then [] else ''?'' @ q)"
proof (cases "q = []")
  case True
  with assms show ?thesis
    by (simp add: URL_String_def EscapedPath_query Let_def cong: if_cong split del: if_split)
next
  case False
  with assms show ?thesis
    by (simp add: URL_String_def EscapedPath_query Let_def cong: if_cong split del: if_split)
qed

text \<open>
  C5. The URL that \<^verbatim>\<open>newListContextsRequest\<close> hands to \<^verbatim>\<open>http.NewRequest\<close> is the
  joined URL, followed when some field is present by \<open>?\<close> and the present fields alone,
  \<open>name=value\<close> under the names owner-id, owner-slug, owner-type, page-token in that
  order, joined by \<open>&\<close>; an absent field leaves nothing, a present empty one leaves
  \<open>name=\<close>. Every value is escaped: it is made of unreserved bytes, \<open>%\<close> and \<open>+\<close>.
\<close>

theorem query_string_of_present_fields:
  "newListContextsRequest c params =
     (case joinedURL c of
        Inl err \<Rightarrow> Err err
      | Inr url \<Rightarrow>
          newHTTPRequest c ''GET''
            (url @ (if presentFields params = [] then [] else ''?'' @ specQuery params)))
   \<and> specQuery params
       = Join (map (\<lambda>(k, v). k @ ''='' @ QueryEscape v)
                 (concat [case OwnerID params of None \<Rightarrow> [] | Some v \<Rightarrow> [(''owner-id'', v)],
                          case OwnerSlug params of None \<Rightarrow> [] | Some v \<Rightarrow> [(''owner-slug'', v)],
                          case OwnerType params of None \<Rightarrow> [] | Some v \<Rightarrow> [(''owner-type'', v)],
                          case PageToken params of None \<Rightarrow> [] | Some v \<Rightarrow> [(''page-token'', v)]]))
              ''&''
   \<and> list_all urlSafe (QueryEscape v)"
proof -
  have "newListContextsRequest c params =
     (case joinedURL c of
        Inl err \<Rightarrow> Err err
      | Inr url \<Rightarrow>
          newHTTPRequest c ''GET''
            (url @ (if presentFields params = [] then [] else ''?'' @ specQuery params)))"
  proof (cases "url_Parse (server c)")
    case (Inl e)
    then show ?thesis by (simp add: newListContextsRequest_def joinedURL_def)
  next
    case (Inr b)
    show ?thesis
    proof (cases "URL_Parse b ''context''")
      case (Inl e)
      with Inr show ?thesis by (simp add: newListContextsRequest_def joinedURL_def)
    next
      case u: (Inr u)
      from join_context [OF u] have "\<not> ForceQuery u" "RawQuery u = []" "Fragment u = []"
        by simp_all
      then have "URL_String (u\<lparr>RawQuery := specQuery params\<rparr>)
          = URL_String u @ (if presentFields params = [] then [] else ''?'' @ specQuery params)"
        by (simp add: String_with_query specQuery_empty)
      with Inr u show ?thesis
        by (simp add: newListContextsRequest_def joinedURL_def encode_is_specQuery)
    qed
  qed
  moreover have "specQuery params
       = Join (map (\<lambda>(k, v). k @ ''='' @ QueryEscape v)
                 (concat [case OwnerID params of None \<Rightarrow> [] | Some v \<Rightarrow> [(''owner-id'', v)],
                          case OwnerSlug params of None \<Rightarrow> [] | Some v \<Rightarrow> [(''owner-slug'', v)],
                          case OwnerType params of None \<Rightarrow> [] | Some v \<Rightarrow> [(''owner-type'', v)],
                          case PageToken params of None \<Rightarrow> [] | Some v \<Rightarrow> [(''page-token'', v)]]))
              ''&''"
    by (cases "OwnerID params"; cases "OwnerSlug params"; cases "OwnerType params";
        cases "PageToken params")
       (simp_all add: specQuery_def presentFields_def)
  ultimately show ?thesis
    using QueryEscape_safe by blast
qed

lemma canon_keys:
  "CanonicalMIMEHeaderKey ''circle-token'' = ''Circle-Token''"
  "CanonicalMIMEHeaderKey ''Accept'' = ''Accept''"
  by code_simp+

lemma newHTTPRequest_authenticated:
  "newHTTPRequest c method url = Ok req \<Longrightarrow> authenticated c req"
  by (auto simp: newHTTPRequest_def authenticated_def Header_Add_def Header_Get_def canon_keys
        http_NewRequest_def Let_def split: sum.splits if_splits)

lemma demo_list_request:
  "newListContextsRequest demoClient (slugParams ''acme'' ''gh'')
     = Ok (demoRequest ''GET'' ''/api/v2/context'' ''owner-slug=gh%2Facme'')"
  by code_simp

lemma demo_delete_request:
  "newDeleteContextRequest demoClient ''c-1'' = Ok (demoRequest ''DELETE'' ''/api/v2/context/c-1'' [])"
  by code_simp

lemma demo_delete_request_404:
  "newDeleteContextRequest demoClient ''c-404''
     = Ok (demoRequest ''DELETE'' ''/api/v2/context/c-404'' [])"
  by code_simp

text \<open>
  C7. Whatever the operation, a request the client builds carries the header
  \<open>circle-token\<close> with the token of the client and the header \<open>Accept\<close> with
  \<open>application/json\<close>: both builders end in \<^verbatim>\<open>newHTTPRequest\<close>, which adds the two.
\<close>

theorem every_request_authenticated:
  "(newHTTPRequest c method url = Ok req \<longrightarrow> authenticated c req)
   \<and> (newListContextsRequest c params = Ok req \<longrightarrow> authenticated c req)
   \<and> (newDeleteContextRequest c contextID = Ok req \<longrightarrow> authenticated c req)"
  by (auto simp: newListContextsRequest_def newDeleteContextRequest_def
        intro: newHTTPRequest_authenticated split: sum.splits)

theorem every_request_authenticated_witness:
  "newListContextsRequest demoClient (slugParams ''acme'' ''gh'')
     = Ok (demoRequest ''GET'' ''/api/v2/context'' ''owner-slug=gh%2Facme'')
   \<and> authenticated demoClient (demoRequest ''GET'' ''/api/v2/context'' ''owner-slug=gh%2Facme'')
   \<and> newDeleteContextRequest demoClient ''c-1''
     = Ok (demoRequest ''DELETE'' ''/api/v2/context/c-1'' [])
   \<and> authenticated demoClient (demoRequest ''DELETE'' ''/api/v2/context/c-1'' [])
   \<and> token demoClient = ''secret''"
proof -
  have "newHTTPRequest demoClient ''GET'' ''https://circleci.com/api/v2/context?owner-slug=gh%2Facme''
          = Ok (demoRequest ''GET'' ''/api/v2/context'' ''owner-slug=gh%2Facme'')"
    by code_simp
  moreover have "token demoClient = ''secret''"
    by code_simp
  ultimately show ?thesis
    using every_request_authenticated [of demoClient "''GET''"
        "''https://circleci.com/api/v2/context?owner-slug=gh%2Facme''"
        "demoRequest ''GET'' ''/api/v2/context'' ''owner-slug=gh%2Facme''"
        "slugParams ''acme'' ''gh''" "''c-9''"]
      every_request_authenticated [of demoClient "''DELETE''" "[]"
        "demoRequest ''DELETE'' ''/api/v2/context/c-1'' []" "slugParams ''acme'' ''gh''" "''c-1''"]
      demo_list_request demo_delete_request
    by simp
qed

subsection \<open>Deleting a context\<close>

text \<open>
  C9. When the request is built and sent and the body of the response is read,
  \<^verbatim>\<open>DeleteContext\<close> returns no error on status 200, whatever the body; on any other
  status, when the error body decodes with a message, it returns the error made of that
  message.
\<close>

theorem delete_by_status:
  assumes "newDeleteContextRequest c contextID = Ok req"
    and "client c w req = (Inr resp, w')"
    and "Body resp = Inr bodyBytes"
  shows "(StatusCode resp = 200 \<longrightarrow> DeleteContext js c w contextID = (Ok (), w'))
         \<and> (StatusCode resp \<noteq> 200 \<and> Unmarshal_ErrorResponse js bodyBytes = Inr dest
              \<and> Message dest = Some m \<longrightarrow>
              DeleteContext js c w contextID = (Err (fundamental m), w'))"
  using assms by (simp add: DeleteContext_def)

theorem delete_by_status_witness:
  "DeleteContext demoJSON demoClient 0 ''c-1'' = (Ok (), 1)
   \<and> DeleteContext demoJSON demoClient 0 ''c-404'' = (Err (fundamental ''Context not found.''), 1)"
proof -
  have s1: "client demoClient 0 (demoRequest ''DELETE'' ''/api/v2/context/c-1'' [])
              = (Inr \<lparr>StatusCode = 200, Body = Inr ''{\"message\":\"Context deleted.\"}''\<rparr>, 1)"
    by code_simp
  have s2: "client demoClient 0 (demoRequest ''DELETE'' ''/api/v2/context/c-404'' [])
              = (Inr \<lparr>StatusCode = 404, Body = Inr ''{\"message\":\"Context not found.\"}''\<rparr>, 1)"
    by code_simp
  have d: "Unmarshal_ErrorResponse demoJSON ''{\"message\":\"Context not found.\"}''
             = Inr \<lparr>Message = Some ''Context not found.''\<rparr>"
    by code_simp
  from delete_by_status [OF demo_delete_request s1, of _ demoJSON]
    delete_by_status [OF demo_delete_request_404 s2, of _ demoJSON
      "\<lparr>Message = Some ''Context not found.''\<rparr>" "''Context not found.''"] d
  show ?thesis by simp
qed

subsection \<open>Construction\<close>

lemma listContexts_bad_server:
  "url_Parse (server c) = Inl e \<Longrightarrow> listContexts js c w params = (Err e, w)"
  by (simp add: listContexts_def newListContextsRequest_def)

text \<open>
  C10. \<^verbatim>\<open>NewClient\<close> stores the token, the transport and the server string with its
  slash, for every server string: it has no error to return and does not parse the
  string. A stored string that does not parse is met when an operation builds its
  request: the operation returns the error of the parse and sends nothing.
\<close>

theorem construction_total_url_checked_later:
  "token (NewClient http s t) = t \<and> client (NewClient http s t) = http
   \<and> server (NewClient http s t) = (if HasSuffix s ''/'' then s else s @ ''/'')
   \<and> (url_Parse (server c) = Inl e \<longrightarrow>
        newListContextsRequest c params = Err e
        \<and> newDeleteContextRequest c contextID = Err e
        \<and> listContexts js c w params = (Err e, w)
        \<and> DeleteContext js c w contextID = (Err e, w)
        \<and> listAllContexts js c w params = Some (Err e, w)
        \<and> getContextByName js c w params name = Some (Err e, w)
        \<and> Contexts js c w org vcs = Some (Err e, w)
        \<and> ContextByName js c w org vcs name = Some (Err e, w))"
proof -
  have "listAllContexts js c w p = Some (Err e, w)"
    if "url_Parse (server c) = Inl e" for p
    using listContexts_bad_server [OF that, of js w p]
    by (subst listAllContexts.simps) simp
  moreover have "getContextByName js c w p name = Some (Err e, w)"
    if "url_Parse (server c) = Inl e" for p
    using listContexts_bad_server [OF that, of js w p]
    by (subst getContextByName.simps) simp
  ultimately show ?thesis
    by (simp add: NewClient_def newListContextsRequest_def newDeleteContextRequest_def
          listContexts_def DeleteContext_def Contexts_def ContextByName_def)
qed

theorem construction_total_witness:
  "server (NewClient demoHTTP '':'' ''secret'') = '':/''
   \<and> url_Parse '':/'' = Inl (url_Error ''parse'' '':/'' (errorString ''missing protocol scheme''))
   \<and> Contexts demoJSON (NewClient demoHTTP '':'' ''secret'') 0 ''acme'' ''gh''
       = Some (Err (url_Error ''parse'' '':/'' (errorString ''missing protocol scheme'')), 0)
   \<and> DeleteContext demoJSON (NewClient demoHTTP '':'' ''secret'') 0 ''c-1''
       = (Err (url_Error ''parse'' '':/'' (errorString ''missing protocol scheme'')), 0)"
proof -
  have s: "server (NewClient demoHTTP '':'' ''secret'') = '':/''"
    by code_simp
  have p: "url_Parse '':/'' = Inl (url_Error ''parse'' '':/'' (errorString ''missing protocol scheme''))"
    by code_simp
  from construction_total_url_checked_later
    [of demoHTTP "'':''" "''secret''" "NewClient demoHTTP '':'' ''secret''"
       "url_Error ''parse'' '':/'' (errorString ''missing protocol scheme'')"
       "slugParams ''acme'' ''gh''" "''c-1''" demoJSON 0 "''x''" "''acme''" "''gh''"]
    s p
  show ?thesis by simp
qed

subsection \<open>Error bodies without a message, identifiers that do not parse\<close>

lemma no_message_panics:
  assumes "newDeleteContextRequest c contextID = Ok req"
    and "client c w req = (Inr resp, w')"
    and "Body resp = Inr bodyBytes"
    and "StatusCode resp \<noteq> 200"
    and "Unmarshal_ErrorResponse js bodyBytes = Inr \<lparr>Message = None\<rparr>"
  shows "DeleteContext js c w contextID = (Panic, w')"
  using assms by (simp add: DeleteContext_def)

text \<open>
  C1. On the status 500 with the body \<open>{}\<close>, which decodes without error and leaves
  the message nil, \<^verbatim>\<open>DeleteContext\<close> and \<^verbatim>\<open>listContexts\<close> dereference the nil
  message: the program stops, where the specification wants an error returned.
\<close>

theorem error_body_without_message_panics:
  "Unmarshal_ErrorResponse demoJSON ''{}'' = Inr \<lparr>Message = None\<rparr>
   \<and> DeleteContext demoJSON demoClient 0 ''c-500'' = (Panic, 1)
   \<and> listContexts demoJSON demoClient 0 (slugParams ''odd'' ''gh'') = (Panic, 1)"
  by code_simp

text \<open>
  C6. \<^verbatim>\<open>newListContextsRequest\<close> returns the error of either parse. In
  \<^verbatim>\<open>newDeleteContextRequest\<close> the identifier \<open>%zz\<close> makes the second parse fail,
  and the builder dereferences the nil URL: the program stops, where the specification
  wants the error returned.
\<close>

theorem delete_request_unparsable_id_panics:
  "url_Parse (''context/'' @ ''%zz'') = Inl (url_Error ''parse'' ''context/%zz'' (EscapeError ''%zz''))
   \<and> newDeleteContextRequest demoClient ''%zz'' = Panic
   \<and> DeleteContext demoJSON demoClient 0 ''%zz'' = (Panic, 0)"
  by code_simp


subsection \<open>Joining the base URL with the resource path\<close>

lemma HasSuffix_slash: "HasSuffix (s @ ''/'') ''/''"
  by (simp add: HasSuffix_def)

lemma HasSuffix_snoc: "HasSuffix s [b] \<Longrightarrow> \<exists>xs. s = xs @ [b]"
  by (cases s rule: rev_cases) (auto simp: HasSuffix_def)

lemma HasPrefix_cons: "HasPrefix s [b] \<Longrightarrow> \<exists>xs. s = b # xs"
  by (cases s) (auto simp: HasPrefix_def)

lemma LastIndexByte_snoc: "LastIndexByte (xs @ [b]) b = Some (length xs)"
  by (induction xs) auto

lemma Split_nonempty: "Split s sep \<noteq> []"
  by (induction s) (auto split: list.splits)

lemma Split_append: "Split (xs @ sep # ys) sep = Split xs sep @ Split ys sep"
proof (induction xs)
  case Nil
  then show ?case by simp
next
  case (Cons c cs)
  obtain p ps where "Split cs sep = p # ps"
    using Split_nonempty [of cs sep] by (cases "Split cs sep") auto
  with Cons show ?case by simp
qed

lemma Join_Split: "Join (Split s sep) [sep] = s"
proof (induction s)
  case Nil
  then show ?case by simp
next
  case (Cons c cs)
  obtain p ps where s: "Split cs sep = p # ps"
    using Split_nonempty [of cs sep] by (cases "Split cs sep") auto
  with Cons show ?case
    by (cases ps) auto
qed

lemma removeDots_plain:
  "''.'' \<notin> set src \<Longrightarrow> ''..'' \<notin> set src \<Longrightarrow> removeDots dst src = dst @ src"
  by (induction src arbitrary: dst) auto

lemma Split_context: "Split ''context'' CHR ''/'' = [''context'']"
  by code_simp

lemma resolvePath_context:
  assumes "HasPrefix bp ''/''" and "HasSuffix bp ''/''" and "dotFree bp"
  shows "resolvePath bp ''context'' = bp @ ''context''"
proof -
  define full where "full = bp @ ''context''"
  from assms(2) obtain xs where bp: "bp = xs @ ''/''"
    using HasSuffix_snoc by blast
  from assms(1) obtain ys where bp': "bp = CHR ''/'' # ys"
    using HasPrefix_cons by blast
  have pick: "(case LastIndexByte bp CHR ''/'' of None \<Rightarrow> ''context''
               | Some i \<Rightarrow> take (i + 1) bp @ ''context'') = full"
    by (simp add: bp LastIndexByte_snoc full_def)
  have src: "Split full CHR ''/'' = Split xs CHR ''/'' @ [''context'']"
    using Split_append [of xs "CHR ''/''" "''context''"] by (simp add: full_def bp Split_context)
  have "Split bp CHR ''/'' = Split xs CHR ''/'' @ [[]]"
    using Split_append [of xs "CHR ''/''" "[]"] by (simp add: bp)
  with assms(3) have nodots: "''.'' \<notin> set (Split xs CHR ''/'')" "''..'' \<notin> set (Split xs CHR ''/'')"
    by (simp_all add: dotFree_def)
  have dst: "removeDots [] (Split full CHR ''/'') = Split full CHR ''/''"
    using nodots by (simp add: src removeDots_plain)
  have lst: "last (Split full CHR ''/'') = ''context''"
    by (simp add: src)
  have nonempty: "full \<noteq> []"
    by (simp add: full_def)
  have trim: "''/'' @ TrimPrefix full ''/'' = full"
    by (simp add: full_def bp' TrimPrefix_def HasPrefix_def)
  have "resolvePath bp ''context'' = ''/'' @ TrimPrefix (Join (Split full CHR ''/'') ''/'') ''/''"
    unfolding resolvePath_def Let_def by (simp add: pick dst lst nonempty)
  also have "\<dots> = full"
    by (simp only: Join_Split trim)
  finally show ?thesis
    by (simp add: full_def)
qed


lemma hex_digit: "n < 16 \<Longrightarrow> ishex (upperhex n) \<and> unhex (upperhex n) = n"
proof -
  have "list_all (\<lambda>n. ishex (upperhex n) \<and> unhex (upperhex n) = n) [0..<16]"
    by code_simp
  moreover assume "n < 16"
  ultimately show ?thesis
    by (simp add: list_all_iff)
qed

lemma byte_of_hex:
  "char_of (unhex (upperhex (of_char c div 16)) * 16 + unhex (upperhex (of_char c mod 16))) = c"
proof -
  have "unhex (upperhex (of_char c div 16)) = of_char c div 16"
    using hex_digit [OF of_char_div16] by simp
  moreover have "unhex (upperhex (of_char c mod 16)) = of_char c mod 16"
    using hex_digit [of "of_char c mod 16"] by simp
  ultimately show ?thesis
    by simp
qed

lemma percent_escaped: "shouldEscape CHR ''%'' encodePath"
  by code_simp

lemma unescape_escapeByte:
  "unescape rest encodePath = Inr p \<Longrightarrow>
   unescape (escapeByte encodePath c @ rest) encodePath = Inr (c # p)"
proof (cases "shouldEscape c encodePath")
  case True
  assume "unescape rest encodePath = Inr p"
  with True show ?thesis
    using hex_digit [OF of_char_div16, of c] hex_digit [of "of_char c mod 16"]
    by (simp add: escapeByte_def byte_of_hex)
next
  case False
  assume "unescape rest encodePath = Inr p"
  moreover from False have "c \<noteq> CHR ''%''"
    using percent_escaped by auto
  ultimately show ?thesis
    using False by (simp add: escapeByte_def)
qed

lemma unescape_escape: "unescape (escape p encodePath) encodePath = Inr p"
  by (induction p) (simp_all add: escape_def unescape_escapeByte)

lemma unescape_append:
  "unescape a mode = Inr x \<Longrightarrow>
   unescape (a @ b) mode = (case unescape b mode of Inl e \<Rightarrow> Inl e | Inr y \<Rightarrow> Inr (x @ y))"
proof (induction a mode arbitrary: x rule: unescape.induct)
  case (1 mode)
  then show ?case by (simp split: sum.splits)
next
  case (2 c cs mode)
  show ?case
  proof (cases "c = CHR ''%''")
    case True
    with "2.prems" obtain h l rest where cs: "cs = h # l # rest"
      by (cases cs; cases "tl cs") auto
    with True "2.prems" obtain t where
      t: "unescape rest mode = Inr t" and x: "x = char_of (unhex h * 16 + unhex l) # t"
      by (auto split: if_splits sum.splits)
    from True cs "2.prems" have ok: "\<not> (\<not> ishex h \<or> \<not> ishex l)"
      "\<not> (mode = encodeHost \<and> unhex h < 8 \<and> [c, h, l] \<noteq> ''%25'')"
      "\<not> (mode = encodeZone \<and> [c, h, l] \<noteq> ''%25''
           \<and> char_of (unhex h * 16 + unhex l) \<noteq> CHR '' ''
           \<and> shouldEscape (char_of (unhex h * 16 + unhex l)) encodeHost)"
      by (auto split: if_splits)
    have "unescape (rest @ b) mode
            = (case unescape b mode of Inl e \<Rightarrow> Inl e | Inr y \<Rightarrow> Inr (t @ y))"
      using "2.IH"(1) [of h "l # rest" l rest t] True cs ok t by simp
    with True cs ok x show ?thesis
      by (auto split: sum.splits)
  next
    case False
    with "2.prems" obtain t where t: "unescape cs mode = Inr t"
      by (auto split: if_splits sum.splits)
    have "unescape (cs @ b) mode
            = (case unescape b mode of Inl e \<Rightarrow> Inl e | Inr y \<Rightarrow> Inr (t @ y))"
    proof (cases "c = CHR ''+''")
      case True
      from "2.IH"(2) [OF False True t] show ?thesis .
    next
      case plus: False
      from False plus "2.prems" have
        "\<not> ((mode = encodeHost \<or> mode = encodeZone) \<and> (of_char c :: nat) < 0x80
            \<and> shouldEscape c mode)"
        by (auto split: if_splits)
      from "2.IH"(3) [OF False plus this t] show ?thesis .
    qed
    with False t "2.prems" show ?thesis
      by (auto split: if_splits sum.splits)
  qed
qed


lemma validEncodedPath_append:
  "validEncodedPath (a @ b) = (validEncodedPath a \<and> validEncodedPath b)"
  by (simp add: validEncodedPath_def ball_Un)

lemma upperhex_unescaped: "n < 16 \<Longrightarrow> \<not> shouldEscape (upperhex n) encodePath"
  using upperhex_alnum by (simp add: shouldEscape_def)

lemma validEncodedPath_escapeByte: "validEncodedPath (escapeByte encodePath c)"
  using upperhex_unescaped [OF of_char_div16, of c] upperhex_unescaped [of "of_char c mod 16"]
  by (simp add: validEncodedPath_def escapeByte_def)

lemma validEncodedPath_escape: "validEncodedPath (escape p encodePath)"
  by (induction p) (simp_all add: escape_def validEncodedPath_append validEncodedPath_escapeByte,
      simp add: validEncodedPath_def)

lemma validEncodedPath_context: "validEncodedPath ''context''"
  by code_simp

lemma unescape_context: "unescape ''context'' encodePath = Inr ''context''"
  by code_simp

lemma not_star: "HasSuffix p ''/'' \<Longrightarrow> p \<noteq> ''*''"
  by (auto simp: HasSuffix_def)

lemma EscapedPath_decodes:
  assumes "HasSuffix (EscapedPath b) ''/''"
  shows "unescape (EscapedPath b) encodePath = Inr (Path b) \<and> validEncodedPath (EscapedPath b)"
proof (cases "RawPath b \<noteq> [] \<and> validEncodedPath (RawPath b)
              \<and> unescape (RawPath b) encodePath = Inr (Path b)")
  case True
  then show ?thesis by (simp add: EscapedPath_def)
next
  case False
  with assms have "Path b \<noteq> ''*''"
    using not_star [of "EscapedPath b"] by (auto simp: EscapedPath_def)
  with False show ?thesis
    by (auto simp: EscapedPath_def unescape_escape validEncodedPath_escape)
qed

lemma setPath_joined:
  assumes "HasSuffix (EscapedPath b) ''/''"
  shows "\<exists>u'. setPath u (EscapedPath b @ ''context'') = Inr u'
           \<and> Path u' = Path b @ ''context''
           \<and> EscapedPath u' = EscapedPath b @ ''context''
           \<and> Scheme u' = Scheme u \<and> Opaque u' = Opaque u \<and> User u' = User u
           \<and> Host u' = Host u \<and> ForceQuery u' = ForceQuery u
           \<and> RawQuery u' = RawQuery u \<and> Fragment u' = Fragment u"
proof -
  let ?p = "EscapedPath b @ ''context''"
  from EscapedPath_decodes [OF assms]
  have dec: "unescape ?p encodePath = Inr (Path b @ ''context'')" and val: "validEncodedPath ?p"
    by (simp_all add: unescape_append unescape_context validEncodedPath_append
          validEncodedPath_context)
  define u' where
    "u' = u\<lparr>Path := Path b @ ''context'',
             RawPath := (if ?p = escape (Path b @ ''context'') encodePath then [] else ?p)\<rparr>"
  have set: "setPath u ?p = Inr u'"
    by (simp add: setPath_def dec u'_def)
  have "Path b @ ''context'' \<noteq> ''*''"
    by (cases "Path b") auto
  then have "EscapedPath u' = ?p"
    using dec val by (simp add: EscapedPath_def u'_def)
  moreover have "Path u' = Path b @ ''context''" "Scheme u' = Scheme u" "Opaque u' = Opaque u"
    "User u' = User u" "Host u' = Host u" "ForceQuery u' = ForceQuery u"
    "RawQuery u' = RawQuery u" "Fragment u' = Fragment u"
    by (simp_all add: u'_def)
  ultimately show ?thesis
    using set by blast
qed

lemma unescape_nonempty: "unescape s mode = Inr [] \<Longrightarrow> s = []"
  by (cases s) (auto split: if_splits list.splits sum.splits)

lemma Path_nonempty: "EscapedPath b \<noteq> [] \<Longrightarrow> Path b \<noteq> []"
  by (auto simp: EscapedPath_def escape_def dest: unescape_nonempty split: if_splits)

lemma parse_opaque: "parse s = Inr b \<Longrightarrow> Opaque b \<noteq> [] \<Longrightarrow> Path b = [] \<and> RawPath b = []"
  by (auto simp: parse_def setPath_def emptyURL_def Let_def
        split: if_splits sum.splits prod.splits)

lemma url_Parse_opaque:
  "url_Parse s = Inr b \<Longrightarrow> Opaque b \<noteq> [] \<Longrightarrow> Path b = [] \<and> RawPath b = []"
  by (auto simp: url_Parse_def dest: parse_opaque split: if_splits sum.splits prod.splits)

lemma EscapedPath_opaque:
  assumes "url_Parse s = Inr b" and "EscapedPath b \<noteq> []"
  shows "Opaque b = []"
proof (rule ccontr)
  assume "Opaque b \<noteq> []"
  with assms(1) have "Path b = []" and "RawPath b = []"
    using url_Parse_opaque by blast+
  then have "EscapedPath b = []"
    by (simp add: EscapedPath_def escape_def)
  with assms(2) show False by simp
qed


lemma join_context_url:
  assumes "HasPrefix (EscapedPath b) ''/''" and "HasSuffix (EscapedPath b) ''/''"
    and "dotFree (EscapedPath b)"
  shows "\<exists>u. URL_Parse b ''context'' = Inr u \<and> Scheme u = Scheme b \<and> User u = User b
           \<and> Host u = Host b \<and> Opaque u = [] \<and> Path u = Path b @ ''context''
           \<and> EscapedPath u = EscapedPath b @ ''context''
           \<and> \<not> ForceQuery u \<and> RawQuery u = [] \<and> Fragment u = []"
proof -
  define ref where "ref = emptyURL\<lparr>Path := ''context''\<rparr>"
  define url2 where "url2 = ref\<lparr>Scheme := Scheme b, Host := Host b, User := User b\<rparr>"
  have "EscapedPath ref = ''context''"
    unfolding ref_def by (rule EscapedPath_context)
  then have ref: "Scheme ref = []" "Host ref = []" "User ref = None" "Opaque ref = []"
    "Path ref = ''context''" "EscapedPath ref = ''context''"
    by (simp_all add: ref_def emptyURL_def)
  from setPath_joined [OF assms(2), of url2] obtain u' where
    set: "setPath url2 (EscapedPath b @ ''context'') = Inr u'" and
    u': "Path u' = Path b @ ''context''" "Scheme u' = Scheme url2" "Opaque u' = Opaque url2"
      "User u' = User url2" "Host u' = Host url2" "ForceQuery u' = ForceQuery url2"
      "RawQuery u' = RawQuery url2" "Fragment u' = Fragment url2" and
    esc: "EscapedPath u' = EscapedPath b @ ''context''"
    by blast
  have "ResolveReference b ref = u'"
    using set by (simp add: ResolveReference_def ref Let_def resolvePath_context [OF assms] url2_def)
  then have "URL_Parse b ''context'' = Inr u'"
    by (simp add: URL_Parse_def url_Parse_context ref_def)
  moreover have "Scheme u' = Scheme b \<and> User u' = User b \<and> Host u' = Host b \<and> Opaque u' = []
      \<and> Path u' = Path b @ ''context'' \<and> \<not> ForceQuery u' \<and> RawQuery u' = [] \<and> Fragment u' = []"
    by (simp add: u' url2_def ref_def emptyURL_def)
  ultimately show ?thesis
    using esc by blast
qed

lemma String_hierarchical:
  assumes "Opaque u = []" and "\<not> ForceQuery u" and "RawQuery u = []" and "Fragment u = []"
    and "EscapedPath u = CHR ''/'' # rest" and "Path u \<noteq> []"
  shows "URL_String u =
           (if Scheme u \<noteq> [] \<or> Host u \<noteq> [] \<or> User u \<noteq> None then
              (if Scheme u \<noteq> [] then Scheme u @ '':'' else []) @ ''//''
              @ (if User u \<noteq> None then Userinfo_String (User u) @ ''@'' else [])
              @ (if Host u \<noteq> [] then escape (Host u) encodeHost else [])
            else [])
           @ EscapedPath u"
  using assms by (auto simp: URL_String_def Let_def)

lemma String_joined:
  assumes "url_Parse s = Inr b"
    and "HasPrefix (EscapedPath b) ''/''" and "HasSuffix (EscapedPath b) ''/''"
    and "dotFree (EscapedPath b)"
    and "\<not> ForceQuery b" and "RawQuery b = []" and "Fragment b = []"
    and "URL_Parse b ''context'' = Inr u"
  shows "URL_String u = URL_String b @ ''context''"
proof -
  from join_context_url [OF assms(2-4)] assms(8)
  have u: "Scheme u = Scheme b" "User u = User b" "Host u = Host b" "Opaque u = []"
    "Path u = Path b @ ''context''" "EscapedPath u = EscapedPath b @ ''context''"
    "\<not> ForceQuery u" "RawQuery u = []" "Fragment u = []"
    by auto
  from assms(2) obtain rest where bp: "EscapedPath b = CHR ''/'' # rest"
    using HasPrefix_cons by blast
  then have "Opaque b = []" and "Path b \<noteq> []"
    using EscapedPath_opaque [OF assms(1)] Path_nonempty [of b] by auto
  from String_hierarchical [OF this(1) assms(5-7) bp this(2)]
    String_hierarchical [OF u(4) u(7-9), of "rest @ ''context''"]
  show ?thesis
    by (simp add: u bp)
qed

text \<open>
  The join prints the URL in the form of the library, which need not be the stored
  string: the scheme comes out in lower case.
\<close>

lemma join_prints_lower_case_scheme:
  "server (NewClient demoHTTP ''HTTPS://api.example.com'' ''secret'') = ''HTTPS://api.example.com/''
   \<and> joinedURL (NewClient demoHTTP ''HTTPS://api.example.com'' ''secret'')
       = Inr ''https://api.example.com/context''"
  by code_simp

text \<open>
  C8. \<^verbatim>\<open>NewClient\<close> appends a slash to the server string exactly when it does not end
  in one, so the stored string always ends in a slash. The join with \<open>context\<close> is the
  stored string followed by \<open>context\<close> for the bases the slash is meant for: when
  the stored string parses to a URL with a host, without query and fragment, whose path
  starts and ends with a slash and has no segment \<open>.\<close> or \<open>..\<close>, and the stored
  string is written the way the library prints that URL, the joined URL prints as the
  stored string followed by \<open>context\<close>. For other server strings it need not, as the
  example after the theorem shows.
\<close>

theorem server_slash_then_join:
  "server (NewClient http s t) = (if HasSuffix s ''/'' then s else s @ ''/'')
   \<and> HasSuffix (server (NewClient http s t)) ''/''
   \<and> (url_Parse (server c) = Inr b \<and> URL_String b = server c \<and> Host b \<noteq> []
        \<and> HasPrefix (EscapedPath b) ''/'' \<and> HasSuffix (EscapedPath b) ''/''
        \<and> dotFree (EscapedPath b)
        \<and> \<not> ForceQuery b \<and> RawQuery b = [] \<and> Fragment b = []
      \<longrightarrow> joinedURL c = Inr (server c @ ''context''))"
proof -
  have "joinedURL c = Inr (server c @ ''context'')"
    if p: "url_Parse (server c) = Inr b"
      and n: "URL_String b = server c"
      and h: "HasPrefix (EscapedPath b) ''/''" "HasSuffix (EscapedPath b) ''/''"
        "dotFree (EscapedPath b)"
      and q: "\<not> ForceQuery b" "RawQuery b = []" "Fragment b = []"
  proof -
    from join_context_url [OF h] obtain u where u: "URL_Parse b ''context'' = Inr u"
      by blast
    from String_joined [OF p h q u] have "URL_String u = server c @ ''context''"
      by (simp add: n)
    with p u show ?thesis
      by (simp add: joinedURL_def)
  qed
  then show ?thesis
    by (auto simp: NewClient_def HasSuffix_slash)
qed

theorem server_slash_then_join_witness:
  "server (NewClient demoHTTP ''https://api.example.com'' ''secret'') = ''https://api.example.com/''
   \<and> joinedURL (NewClient demoHTTP ''https://api.example.com'' ''secret'')
       = Inr (''https://api.example.com/'' @ ''context'')"
proof -
  define b where "b = emptyURL\<lparr>Scheme := ''https'', Host := ''api.example.com'', Path := ''/''\<rparr>"
  have s: "server (NewClient demoHTTP ''https://api.example.com'' ''secret'')
             = ''https://api.example.com/''"
    by code_simp
  have p: "url_Parse ''https://api.example.com/'' = Inr b"
    unfolding b_def by code_simp
  have n: "URL_String b = ''https://api.example.com/'' \<and> Host b \<noteq> []"
    unfolding b_def by code_simp
  have h: "HasPrefix (EscapedPath b) ''/'' \<and> HasSuffix (EscapedPath b) ''/''
           \<and> dotFree (EscapedPath b) \<and> \<not> ForceQuery b \<and> RawQuery b = [] \<and> Fragment b = []"
    unfolding b_def by code_simp
  from server_slash_then_join
    [of demoHTTP "''https://api.example.com''" "''secret''"
       "NewClient demoHTTP ''https://api.example.com'' ''secret''" b]
    s p n h
  show ?thesis by simp
qed

text \<open>
  A server string with a query: the slash is appended to the query, and the join
  replaces the last segment of the path instead of following it.
\<close>

theorem join_drops_path_of_server_with_query:
  "server (NewClient demoHTTP ''https://example.com/api?v=2'' ''secret'')
     = ''https://example.com/api?v=2/''
   \<and> joinedURL (NewClient demoHTTP ''https://example.com/api?v=2'' ''secret'')
     = Inr ''https://example.com/context''
   \<and> joinedURL (NewClient demoHTTP ''https://example.com/api?v=2'' ''secret'')
     \<noteq> Inr (server (NewClient demoHTTP ''https://example.com/api?v=2'' ''secret'') @ ''context'')"
  by code_simp

end
